theory Spec2Isabelle
  imports Main "HOL-Library.Sublist"
begin

section \<open>The platform: JavaScript dates\<close>

text \<open>
  \<^verbatim>\<open>UserAudit.js\<close> is a Google Apps Script. Its one computation on dates is
  \<^verbatim>\<open>date.setDate(date.getDate() - daysAgo)\<close> on a fresh \<^verbatim>\<open>new Date()\<close>.
  A JavaScript date holds a time value: the milliseconds since 1970-01-01T00:00:00Z, or
  NaN for an invalid date (\<open>None\<close> below). The functions of this section follow the
  abstract operations of ECMA-262, section "Date Objects", under their own names. Time
  values are IEEE doubles in JavaScript; every integer of magnitude up to \<open>2^53\<close> is exact
  there, and \<open>TimeClip\<close> turns every result beyond \<open>8.64 * 10^15\<close> into NaN, so integer
  arithmetic with \<open>TimeClip\<close> written out gives the same results.
\<close>

definition msPerDay :: int where
  "msPerDay = 86400000"

definition Day :: "int \<Rightarrow> int" where
  "Day t = t div msPerDay"

definition TimeWithinDay :: "int \<Rightarrow> int" where
  "TimeWithinDay t = t mod msPerDay"

definition DaysInYear :: "int \<Rightarrow> int" where
  "DaysInYear y =
     (if y mod 4 \<noteq> 0 then 365
      else if y mod 100 \<noteq> 0 then 366
      else if y mod 400 \<noteq> 0 then 365
      else 366)"

definition DayFromYear :: "int \<Rightarrow> int" where
  "DayFromYear y =
     365 * (y - 1970) + (y - 1969) div 4 - (y - 1901) div 100 + (y - 1601) div 400"

text \<open>
  ECMA-262 defines \<open>YearFromTime t\<close> as the largest \<open>y\<close> whose first day is not after
  \<open>t\<close>. \<open>YearFromDay\<close> computes it from the day number, counting whole cycles of 400,
  100, 4 and 1 years from the first day of 1601; \<open>YearFromDay_bounds\<close> below shows
  that it is that year.
\<close>

definition YearFromDay :: "int \<Rightarrow> int" where
  "YearFromDay d =
     (let n = d - DayFromYear 1601;
          r = n mod 146097;
          c = min (r div 36524) 3;
          r2 = r - c * 36524;
          a = min ((r2 mod 1461) div 365) 3
      in 1601 + 400 * (n div 146097) + 100 * c + 4 * (r2 div 1461) + a)"

definition YearFromTime :: "int \<Rightarrow> int" where
  "YearFromTime t = YearFromDay (Day t)"

definition DayWithinYear :: "int \<Rightarrow> int" where
  "DayWithinYear t = Day t - DayFromYear (YearFromTime t)"

definition InLeapYear :: "int \<Rightarrow> int" where
  "InLeapYear t = (if DaysInYear (YearFromTime t) = 366 then 1 else 0)"

text \<open>The day within the year on which the month \<open>m\<close> (0 to 11) starts.\<close>

definition MonthStart :: "int \<Rightarrow> int \<Rightarrow> int" where
  "MonthStart m leap =
     (if m = 0 then 0
      else if m = 1 then 31
      else if m = 2 then 59 + leap
      else if m = 3 then 90 + leap
      else if m = 4 then 120 + leap
      else if m = 5 then 151 + leap
      else if m = 6 then 181 + leap
      else if m = 7 then 212 + leap
      else if m = 8 then 243 + leap
      else if m = 9 then 273 + leap
      else if m = 10 then 304 + leap
      else 334 + leap)"

definition MonthFromTime :: "int \<Rightarrow> int" where
  "MonthFromTime t =
     (let d = DayWithinYear t; leap = InLeapYear t in
      if d < 31 then 0
      else if d < 59 + leap then 1
      else if d < 90 + leap then 2
      else if d < 120 + leap then 3
      else if d < 151 + leap then 4
      else if d < 181 + leap then 5
      else if d < 212 + leap then 6
      else if d < 243 + leap then 7
      else if d < 273 + leap then 8
      else if d < 304 + leap then 9
      else if d < 334 + leap then 10
      else 11)"

definition DateFromTime :: "int \<Rightarrow> int" where
  "DateFromTime t = DayWithinYear t - MonthStart (MonthFromTime t) (InLeapYear t) + 1"

text \<open>
  \<open>MakeDay year month date\<close>: the day number of the first day of the month, plus
  \<open>date - 1\<close>. A month outside 0 to 11 carries into the year.
\<close>

definition MakeDay :: "int \<Rightarrow> int \<Rightarrow> int \<Rightarrow> int" where
  "MakeDay year month date =
     (let ym = year + month div 12;
          mn = month mod 12
      in DayFromYear ym + MonthStart mn (if DaysInYear ym = 366 then 1 else 0) + date - 1)"

definition MakeDate :: "int \<Rightarrow> int \<Rightarrow> int" where
  "MakeDate day time = day * msPerDay + time"

definition TimeClip :: "int \<Rightarrow> int option" where
  "TimeClip time = (if \<bar>time\<bar> > 8640000000000000 then None else Some time)"

text \<open>
  The offset of local time from UTC is the platform's: \<open>tza t True\<close> at the UTC time
  \<open>t\<close> and \<open>tza t False\<close> at the local time \<open>t\<close> (ECMA-262's \<open>LocalTZA\<close>).
\<close>

type_synonym timezone = "int \<Rightarrow> bool \<Rightarrow> int"

definition LocalTime :: "timezone \<Rightarrow> int \<Rightarrow> int" where
  "LocalTime tza t = t + tza t True"

definition UTC :: "timezone \<Rightarrow> int \<Rightarrow> int" where
  "UTC tza t = t - tza t False"

text \<open>A date object's time value: \<open>None\<close> is NaN, the invalid date.\<close>

type_synonym date = "int option"

text \<open>\<^verbatim>\<open>date.getDate()\<close>: the day of the month in local time, NaN for an invalid date.\<close>

definition getDate :: "timezone \<Rightarrow> date \<Rightarrow> int option" where
  "getDate tza date = (case date of None \<Rightarrow> None | Some t \<Rightarrow> Some (DateFromTime (LocalTime tza t)))"

text \<open>
  \<^verbatim>\<open>date.setDate(dt)\<close>: the date with the day of the month replaced, in local time,
  clipped to the range of valid time values. A NaN argument gives the invalid date.
\<close>

definition setDate :: "timezone \<Rightarrow> date \<Rightarrow> int option \<Rightarrow> date" where
  "setDate tza date dt =
     (case date of
        None \<Rightarrow> None
      | Some t0 \<Rightarrow>
          (case dt of
             None \<Rightarrow> None
           | Some d \<Rightarrow>
               (let t = LocalTime tza t0;
                    newDate = MakeDate (MakeDay (YearFromTime t) (MonthFromTime t) d) (TimeWithinDay t)
                in TimeClip (UTC tza newDate))))"

text \<open>Decimal digits: \<open>pad w n\<close> is the last \<open>w\<close> digits of \<open>n\<close>, \<open>toString n\<close> all of them.\<close>

definition digit :: "nat \<Rightarrow> char" where
  "digit d = ''0123456789'' ! (d mod 10)"

fun pad :: "nat \<Rightarrow> nat \<Rightarrow> string" where
  "pad 0 n = []"
| "pad (Suc w) n = pad w (n div 10) @ [digit n]"

fun toString :: "nat \<Rightarrow> string" where
  "toString n = (if n < 10 then [digit n] else toString (n div 10) @ [digit n])"

declare toString.simps [simp del]

text \<open>The errors a call can throw: each carries the message that \<^verbatim>\<open>e.message\<close> reads.\<close>

datatype error =
  ApiError nat string \<comment> \<open>a response of the remote service with an HTTP status, 404 for not found\<close>
| TransportError string \<comment> \<open>no response: the request did not get through\<close>
| RangeError string \<comment> \<open>thrown by the JavaScript runtime\<close>

fun message :: "error \<Rightarrow> string" where
  "message (ApiError code m) = m"
| "message (TransportError m) = m"
| "message (RangeError m) = m"

text \<open>
  \<^verbatim>\<open>date.toISOString()\<close>: \<^verbatim>\<open>YYYY-MM-DDTHH:mm:ss.sssZ\<close> in UTC, the year with a sign
  and six digits outside 0 to 9999; an invalid date throws a RangeError.
\<close>

definition isoDateTime :: "int \<Rightarrow> string" where
  "isoDateTime t =
     (let y = YearFromTime t;
          year = (if 0 \<le> y \<and> y \<le> 9999 then pad 4 (nat y)
                  else (if y < 0 then ''-'' else ''+'') @ pad 6 (nat \<bar>y\<bar>));
          ms = nat (TimeWithinDay t)
      in year @ ''-'' @ pad 2 (nat (MonthFromTime t) + 1) @ ''-'' @ pad 2 (nat (DateFromTime t))
         @ ''T'' @ pad 2 (ms div 3600000) @ '':'' @ pad 2 ((ms div 60000) mod 60)
         @ '':'' @ pad 2 ((ms div 1000) mod 60) @ ''.'' @ pad 3 (ms mod 1000) @ ''Z'')"

definition toISOString :: "date \<Rightarrow> error + string" where
  "toISOString date =
     (case date of
        None \<Rightarrow> Inl (RangeError ''Invalid time value'')
      | Some t \<Rightarrow> Inr (isoDateTime t))"

section \<open>The platform: the services of Apps Script\<close>

text \<open>
  The values that the script copies from a user into the sheet: strings and booleans,
  and \<^verbatim>\<open>undefined\<close> for a property that the user does not have.
\<close>

datatype jsvalue = JString string | JBool bool | JUndefined

text \<open>
  A user of the directory, with the five properties that the script reads:
  \<^verbatim>\<open>user.name.fullName\<close>, \<^verbatim>\<open>user.primaryEmail\<close>, \<^verbatim>\<open>user.lastLoginTime\<close>,
  \<^verbatim>\<open>user.creationTime\<close> and \<^verbatim>\<open>user.suspended\<close>. Every user of the directory has
  a \<^verbatim>\<open>name\<close> and a primary email, which is its key; the other properties are there
  or not, by the user and by the view that the request asks for.
\<close>

record user =
  fullName :: jsvalue
  primaryEmail :: string
  lastLoginTime :: jsvalue
  creationTime :: jsvalue
  suspended :: jsvalue

text \<open>The argument of \<^verbatim>\<open>AdminDirectory.Users.list\<close> and what it returns.\<close>

record list_args =
  customer :: string
  query :: string
  maxResults :: nat
  pageToken :: "string option"
  viewType :: string

datatype list_response =
  Response (response_users: "user list option") (response_nextPageToken: "string option")

text \<open>A spreadsheet: its title, its URL and the rows of cells of its one sheet.\<close>

record spreadsheet =
  title :: string
  url :: string
  grid :: "jsvalue list list"

datatype sheet_call = Create | GetActiveSheet | AppendRow | SetValues | GetUrl

text \<open>
  What the script cannot see from inside: the time zone, the clock and the remote
  services. The run is sequential and deterministic, so what a service answers is a
  function of the request and of the number of calls made to it before; a service that
  answers from the request alone ignores the number, a scripted one ignores the request.
  \<open>Inl e\<close> is the call throwing \<open>e\<close>.
\<close>

record platform =
  LocalTZA :: timezone
  clock :: "nat \<Rightarrow> int"
  Users_list :: "nat \<Rightarrow> list_args \<Rightarrow> error + list_response"
  LicenseAssignments_get :: "nat \<Rightarrow> string \<Rightarrow> string \<Rightarrow> string \<Rightarrow> error + unit"
  sheet_fault :: "sheet_call \<Rightarrow> error option"
  new_url :: "nat \<Rightarrow> string"

text \<open>
  What a run changes: the calls made so far, the lines written by \<^verbatim>\<open>Logger.log\<close>
  and the spreadsheets that exist.
\<close>

record world =
  clock_reads :: nat
  list_calls :: nat
  get_calls :: nat
  logs :: "string list"
  spreadsheets :: "spreadsheet list"

definition Logger_log :: "string \<Rightarrow> world \<Rightarrow> world" where
  "Logger_log msg w = w\<lparr>logs := logs w @ [msg]\<rparr>"

text \<open>\<^verbatim>\<open>new Date()\<close> reads the clock.\<close>

definition new_Date :: "platform \<Rightarrow> world \<Rightarrow> date \<times> world" where
  "new_Date P w = (Some (clock P (clock_reads w)), w\<lparr>clock_reads := Suc (clock_reads w)\<rparr>)"

section \<open>The script\<close>

text \<open>The \<^verbatim>\<open>CONFIG\<close> object. \<^verbatim>\<open>SKU_CATALOG\<close> is a table that no function reads.\<close>

record config =
  TARGET_SKU_ID :: string
  PRODUCT_ID :: string
  INACTIVITY_DAYS :: int

definition CONFIG :: config where
  "CONFIG = \<lparr>TARGET_SKU_ID = ''1010020020'', PRODUCT_ID = ''Google-Apps'', INACTIVITY_DAYS = 365\<rparr>"

text \<open>
  \<^verbatim>\<open>getCutoffDate(daysAgo)\<close>:
  \<^verbatim>\<open>const date = new Date(); date.setDate(date.getDate() - daysAgo); return date;\<close>
\<close>

definition getCutoffDate :: "platform \<Rightarrow> int \<Rightarrow> world \<Rightarrow> date \<times> world" where
  "getCutoffDate P daysAgo w =
     (let (date, w1) = new_Date P w
      in (setDate (LocalTZA P) date (map_option (\<lambda>d. d - daysAgo) (getDate (LocalTZA P) date)), w1))"

text \<open>
  The \<^verbatim>\<open>do ... while (pageToken)\<close> loop of \<^verbatim>\<open>getInactiveUsers\<close>, from the top of its
  body, with the loop's variables \<^verbatim>\<open>users\<close> and \<^verbatim>\<open>pageToken\<close>. A token is truthy when
  it is present and not the empty string. The loop has no bound of its own: where the
  service keeps returning tokens it does not return, which is \<open>None\<close>.
\<close>

definition truthy :: "string option \<Rightarrow> bool" where
  "truthy tok = (case tok of None \<Rightarrow> False | Some t \<Rightarrow> t \<noteq> [])"

definition list_request :: "string \<Rightarrow> string option \<Rightarrow> list_args" where
  "list_request q tok =
     \<lparr>customer = ''my_customer'', query = q, maxResults = 500, pageToken = tok,
      viewType = ''domain_public''\<rparr>"

definition count_list_call :: "world \<Rightarrow> world" where
  "count_list_call w = w\<lparr>list_calls := Suc (list_calls w)\<rparr>"

partial_function (option) getInactiveUsers_loop ::
  "platform \<Rightarrow> string \<Rightarrow> user list \<Rightarrow> string option \<Rightarrow> world \<Rightarrow> (user list \<times> world) option"
where
  "getInactiveUsers_loop P q users tok w =
     (case Users_list P (list_calls w) (list_request q tok) of
        Inl e \<Rightarrow>
          Some (users, Logger_log (''Error listing users: '' @ message e) (count_list_call w))
      | Inr response \<Rightarrow>
          (let users' = (case response_users response of
                           None \<Rightarrow> users
                         | Some page \<Rightarrow> users @ page);
               tok' = response_nextPageToken response
           in if truthy tok' then getInactiveUsers_loop P q users' tok' (count_list_call w)
              else Some (users', count_list_call w)))"

declare getInactiveUsers_loop.simps [code]

text \<open>
  \<^verbatim>\<open>getInactiveUsers(cutoffDate)\<close>. Both calls of \<^verbatim>\<open>toISOString\<close> are outside the
  \<^verbatim>\<open>try\<close>: on an invalid date the function throws. \<^verbatim>\<open>formattedDate\<close> is computed and
  not used.
\<close>

definition getInactiveUsers :: "platform \<Rightarrow> date \<Rightarrow> world \<Rightarrow> ((error + user list) \<times> world) option" where
  "getInactiveUsers P cutoffDate w =
     (case toISOString cutoffDate of
        Inl e \<Rightarrow> Some (Inl e, w)
      | Inr isoString \<Rightarrow>
          (let formattedDate = takeWhile (\<lambda>c. c \<noteq> CHR ''T'') isoString;
               q = ''lastLoginTime < '' @ [CHR 0x22] @ isoString @ [CHR 0x22]
           in map_option (\<lambda>(users, w'). (Inr users, w')) (getInactiveUsers_loop P q [] None w)))"

text \<open>
  \<^verbatim>\<open>hasLicense(userId, productId, skuId)\<close>: true when the call returns, false when it
  throws, whatever it throws.
\<close>

definition hasLicense :: "platform \<Rightarrow> string \<Rightarrow> string \<Rightarrow> string \<Rightarrow> world \<Rightarrow> bool \<times> world" where
  "hasLicense P userId productId skuId w =
     (case LicenseAssignments_get P (get_calls w) productId skuId userId of
        Inr license \<Rightarrow> True
      | Inl e \<Rightarrow> False,
      w\<lparr>get_calls := Suc (get_calls w)\<rparr>)"

text \<open>
  \<^verbatim>\<open>inactiveUsers.filter(user => hasLicense(user.primaryEmail, CONFIG.PRODUCT_ID,
  CONFIG.TARGET_SKU_ID))\<close>: \<^verbatim>\<open>filter\<close> calls the function on each element in order and
  keeps those on which it is true.
\<close>

fun filter_hasLicense :: "platform \<Rightarrow> config \<Rightarrow> user list \<Rightarrow> world \<Rightarrow> user list \<times> world" where
  "filter_hasLicense P cfg [] w = ([], w)"
| "filter_hasLicense P cfg (user # rest) w =
     (let (keep, w1) = hasLicense P (primaryEmail user) (PRODUCT_ID cfg) (TARGET_SKU_ID cfg) w;
          (kept, w2) = filter_hasLicense P cfg rest w1
      in (if keep then user # kept else kept, w2))"

text \<open>
  \<^verbatim>\<open>exportToSheet(users)\<close>. Each call on the spreadsheet service can throw, and nothing
  here catches. \<^verbatim>\<open>SpreadsheetApp.create\<close> makes a spreadsheet with one empty sheet;
  \<^verbatim>\<open>appendRow\<close> writes after the last row; \<^verbatim>\<open>getRange(2, 1, n, 5).setValues(rows)\<close>
  writes the rows from the second row on.
\<close>

definition header :: "jsvalue list" where
  "header = [JString ''Name'', JString ''Email'', JString ''Last Login Time'',
             JString ''Creation Time'', JString ''Suspended'']"

definition user_row :: "user \<Rightarrow> jsvalue list" where
  "user_row user =
     [fullName user,
      JString (primaryEmail user),
      lastLoginTime user,
      creationTime user,
      suspended user]"

definition appendRow :: "jsvalue list \<Rightarrow> jsvalue list list \<Rightarrow> jsvalue list list" where
  "appendRow row g = g @ [row]"

definition setValues :: "nat \<Rightarrow> jsvalue list list \<Rightarrow> jsvalue list list \<Rightarrow> jsvalue list list" where
  "setValues r rows g =
     take (r - 1) (g @ replicate (r - 1 - length g) []) @ rows @ drop (r - 1 + length rows) g"

definition on_sheet :: "nat \<Rightarrow> (jsvalue list list \<Rightarrow> jsvalue list list) \<Rightarrow> world \<Rightarrow> world" where
  "on_sheet i f w =
     w\<lparr>spreadsheets := (spreadsheets w)[i := (spreadsheets w ! i)\<lparr>grid := f (grid (spreadsheets w ! i))\<rparr>]\<rparr>"

definition exportToSheet :: "platform \<Rightarrow> user list \<Rightarrow> world \<Rightarrow> (error + unit) \<times> world" where
  "exportToSheet P users w =
     (case sheet_fault P Create of
        Some e \<Rightarrow> (Inl e, w)
      | None \<Rightarrow>
     (let ss = length (spreadsheets w);
          w1 = w\<lparr>spreadsheets := spreadsheets w @
                 [\<lparr>title = ''Inactive Enterprise Plus Users Audit'', url = new_url P ss, grid = []\<rparr>]\<rparr>
      in case sheet_fault P GetActiveSheet of
        Some e \<Rightarrow> (Inl e, w1)
      | None \<Rightarrow>
     (case sheet_fault P AppendRow of
        Some e \<Rightarrow> (Inl e, w1)
      | None \<Rightarrow>
     (let w2 = on_sheet ss (appendRow header) w1;
          rows = map user_row users
      in case (if length rows > 0 then sheet_fault P SetValues else None) of
        Some e \<Rightarrow> (Inl e, w2)
      | None \<Rightarrow>
     (let w3 = (if length rows > 0 then on_sheet ss (setValues 2 rows) w2 else w2)
      in case sheet_fault P GetUrl of
        Some e \<Rightarrow> (Inl e, w3)
      | None \<Rightarrow> (Inr (), Logger_log (''Report generated: '' @ url (spreadsheets w3 ! ss)) w3))))))"

text \<open>
  \<^verbatim>\<open>auditInactiveEnterpriseUsers()\<close>, with the \<^verbatim>\<open>CONFIG\<close> that it reads as a
  parameter. The result is \<open>Inr ()\<close> when the function returns and \<open>Inl e\<close> when \<open>e\<close>
  leaves it uncaught.
\<close>

definition auditInactiveEnterpriseUsers ::
  "platform \<Rightarrow> config \<Rightarrow> world \<Rightarrow> ((error + unit) \<times> world) option" where
  "auditInactiveEnterpriseUsers P cfg w =
     (let (inactiveDate, w1) = getCutoffDate P (INACTIVITY_DAYS cfg) w
      in case toISOString inactiveDate of
        Inl e \<Rightarrow> Some (Inl e, w1)
      | Inr isoString \<Rightarrow>
     (let w2 = Logger_log (''Auditing users inactive since: '' @ isoString) w1
      in case getInactiveUsers P inactiveDate w2 of
        None \<Rightarrow> None
      | Some (Inl e, w3) \<Rightarrow> Some (Inl e, w3)
      | Some (Inr inactiveUsers, w3) \<Rightarrow>
     (let w4 = Logger_log (''Found '' @ toString (length inactiveUsers) @ '' inactive users.'') w3;
          (targetUsers, w5) = filter_hasLicense P cfg inactiveUsers w4;
          w6 = Logger_log (''Found '' @ toString (length targetUsers)
                            @ '' users with Target License and Inactive.'') w5
      in if length targetUsers > 0 then Some (exportToSheet P targetUsers w6)
         else Some (Inr (), Logger_log ''No matching users found.'' w6))))"

section \<open>Describing what the services answer\<close>

text \<open>The users that a page adds to the list: none when the response has no \<^verbatim>\<open>users\<close>.\<close>

definition page_items :: "list_response \<Rightarrow> user list" where
  "page_items response = (case response_users response of None \<Rightarrow> [] | Some page \<Rightarrow> page)"

text \<open>
  \<open>pages_served P q k tok pages\<close>: from its call number \<open>k\<close> on, the directory answers
  the requests of the loop, the first of them with the token \<open>tok\<close>, with \<open>pages\<close>
  one after the other, and each of these pages carries a token for the next request.
  \<open>token_after tok pages\<close> is the token of the request that follows them.
\<close>

fun pages_served :: "platform \<Rightarrow> string \<Rightarrow> nat \<Rightarrow> string option \<Rightarrow> list_response list \<Rightarrow> bool" where
  "pages_served P q k tok [] = True"
| "pages_served P q k tok (page # pages) =
     (Users_list P k (list_request q tok) = Inr page \<and> truthy (response_nextPageToken page) \<and>
      pages_served P q (Suc k) (response_nextPageToken page) pages)"

fun token_after :: "string option \<Rightarrow> list_response list \<Rightarrow> string option" where
  "token_after tok [] = tok"
| "token_after tok (page # pages) = token_after (response_nextPageToken page) pages"

text \<open>
  \<open>requests_answered P q k tok pages\<close> says the same with the requests written out, as
  the object that \<^verbatim>\<open>getInactiveUsers\<close> passes to \<^verbatim>\<open>AdminDirectory.Users.list\<close>: the
  token of each request is in its \<^verbatim>\<open>pageToken\<close>.
\<close>

fun requests_answered :: "platform \<Rightarrow> string \<Rightarrow> nat \<Rightarrow> string option \<Rightarrow> list_response list \<Rightarrow> bool" where
  "requests_answered P q k tok [] = True"
| "requests_answered P q k tok (page # pages) =
     (Users_list P k \<lparr>customer = ''my_customer'', query = q, maxResults = 500, pageToken = tok,
                      viewType = ''domain_public''\<rparr> = Inr page \<and>
      truthy (response_nextPageToken page) \<and>
      requests_answered P q (Suc k) (response_nextPageToken page) pages)"

text \<open>The query that \<^verbatim>\<open>getInactiveUsers\<close> sends for a cutoff date with the time value \<open>t\<close>.\<close>

definition cutoff_query :: "int \<Rightarrow> string" where
  "cutoff_query t = ''lastLoginTime < '' @ [CHR 0x22] @ isoDateTime t @ [CHR 0x22]"

text \<open>The lines that \<^verbatim>\<open>auditInactiveEnterpriseUsers\<close> logs on its way to the export.\<close>

definition auditing_line :: "int \<Rightarrow> string" where
  "auditing_line t = ''Auditing users inactive since: '' @ isoDateTime t"

definition found_inactive_line :: "nat \<Rightarrow> string" where
  "found_inactive_line n = ''Found '' @ toString n @ '' inactive users.''"

definition found_target_line :: "nat \<Rightarrow> string" where
  "found_target_line n = ''Found '' @ toString n @ '' users with Target License and Inactive.''"

section \<open>Sample inputs\<close>

text \<open>
  A platform on UTC whose clock reads 1971-01-01T00:00:00Z, whose directory answers its
  calls from a script and whose license service answers by user.
\<close>

definition scripted :: "(error + list_response) list \<Rightarrow> nat \<Rightarrow> list_args \<Rightarrow> error + list_response" where
  "scripted script k args = (if k < length script then script ! k else Inl (TransportError ''Timeout''))"

definition sample_platform ::
  "(error + list_response) list \<Rightarrow> (string \<Rightarrow> error + unit) \<Rightarrow> (sheet_call \<Rightarrow> error option) \<Rightarrow> platform" where
  "sample_platform script license fault =
     \<lparr>LocalTZA = (\<lambda>t local. 0),
      clock = (\<lambda>n. 31536000000),
      Users_list = scripted script,
      LicenseAssignments_get = (\<lambda>k productId skuId userId. license userId),
      sheet_fault = fault,
      new_url = (\<lambda>n. ''https://docs.google.com/spreadsheets/d/'' @ toString n)\<rparr>"

definition sample_user :: "string \<Rightarrow> user" where
  "sample_user n =
     \<lparr>fullName = JString n, primaryEmail = n @ ''@x.com'', lastLoginTime = JString ''2022-01-01'',
      creationTime = JString ''2020-01-01'', suspended = JBool False\<rparr>"

definition start :: world where
  "start = \<lparr>clock_reads = 0, list_calls = 0, get_calls = 0, logs = [], spreadsheets = []\<rparr>"

text \<open>Three pages of 500, 500 and 37 users, the last without a token.\<close>

definition page1 :: list_response where
  "page1 = Response (Some (replicate 500 (sample_user ''a''))) (Some ''token1'')"

definition page2 :: list_response where
  "page2 = Response (Some (replicate 500 (sample_user ''b''))) (Some ''token2'')"

definition page3 :: list_response where
  "page3 = Response (Some (replicate 37 (sample_user ''c''))) None"

text \<open>License services that answer every user alike, and sheet services.\<close>

definition not_found :: "string \<Rightarrow> error + unit" where
  "not_found userId = Inl (ApiError 404 ''Not Found'')"

definition timeout :: "string \<Rightarrow> error + unit" where
  "timeout userId = Inl (TransportError ''Timeout'')"

definition assigned :: "string \<Rightarrow> error + unit" where
  "assigned userId = Inr ()"

definition no_fault :: "sheet_call \<Rightarrow> error option" where
  "no_fault call = None"

definition create_fails :: "sheet_call \<Rightarrow> error option" where
  "create_fails call = (if call = Create then Some (ApiError 403 ''Quota exceeded'') else None)"

text \<open>A directory with one page that holds one user.\<close>

definition one_user :: "(error + list_response) list" where
  "one_user = [Inr (Response (Some [sample_user ''A'']) None)]"

text \<open>Two users that differ in each of the five properties.\<close>

definition alice :: user where
  "alice = \<lparr>fullName = JString ''Alice Ames'', primaryEmail = ''alice@x.com'',
            lastLoginTime = JString ''2022-01-01T08:00:00.000Z'',
            creationTime = JString ''2020-01-01T09:30:00.000Z'', suspended = JBool False\<rparr>"

definition bob :: user where
  "bob = \<lparr>fullName = JString ''Bob Bell'', primaryEmail = ''bob@y.org'',
          lastLoginTime = JUndefined,
          creationTime = JString ''2019-05-05T12:00:00.000Z'', suspended = JBool True\<rparr>"

text \<open>
  A directory that answers by the token of the request: the first page, then a page
  with a token and no \<^verbatim>\<open>users\<close>, then the second and the third page.
\<close>

definition by_token :: "nat \<Rightarrow> list_args \<Rightarrow> error + list_response" where
  "by_token k args =
     (case pageToken args of
        None \<Rightarrow> Inr page1
      | Some tok \<Rightarrow>
          if tok = ''token1'' then Inr (Response None (Some ''token1b''))
          else if tok = ''token1b'' then Inr page2
          else if tok = ''token2'' then Inr page3
          else Inl (ApiError 400 ''Invalid page token''))"

definition token_platform :: platform where
  "token_platform = (sample_platform [] not_found no_fault)\<lparr>Users_list := by_token\<rparr>"

text \<open>A sheet service on which writing the rows fails.\<close>

definition setValues_fails :: "sheet_call \<Rightarrow> error option" where
  "setValues_fails call = (if call = SetValues then Some (ApiError 500 ''Service error'') else None)"

section \<open>The calendar\<close>

lemma div_split_const:
  fixes r k b :: int
  assumes "0 \<le> r" "r < b"
  shows "(r + k * b) div b = k"
  using assms by simp

lemma DayFromYear_cycle:
  assumes "0 \<le> a" "a \<le> 3" "0 \<le> q4" "q4 \<le> 24" "0 \<le> c" "c \<le> 3"
  shows "DayFromYear (1601 + 400 * q + 100 * c + 4 * q4 + a) =
         146097 * q + 36524 * c + 1461 * q4 + 365 * a - 134774"
proof -
  have "(a + (100 * q + 25 * c + q4 - 92) * 4) div 4 = 100 * q + 25 * c + q4 - 92"
    using assms by (intro div_split_const) simp_all
  then have d4: "(1601 + 400 * q + 100 * c + 4 * q4 + a - 1969) div 4 = 100 * q + 25 * c + q4 - 92"
    by (simp add: algebra_simps)
  have "((4 * q4 + a) + (4 * q + c - 3) * 100) div 100 = 4 * q + c - 3"
    using assms by (intro div_split_const) simp_all
  then have d100: "(1601 + 400 * q + 100 * c + 4 * q4 + a - 1901) div 100 = 4 * q + c - 3"
    by (simp add: algebra_simps)
  have "((100 * c + 4 * q4 + a) + q * 400) div 400 = q"
    using assms by (intro div_split_const) simp_all
  then have d400: "(1601 + 400 * q + 100 * c + 4 * q4 + a - 1601) div 400 = q"
    by (simp add: algebra_simps)
  show ?thesis
    unfolding DayFromYear_def d4 d100 d400 by simp
qed

text \<open>
  \<open>YearFromDay d\<close> is the year of ECMA-262: its first day is not after \<open>d\<close>, the first
  day of the next year is, and no later year starts by \<open>d\<close>.
\<close>

lemma YearFromDay_bounds:
  "DayFromYear (YearFromDay d) \<le> d \<and> d < DayFromYear (YearFromDay d + 1)"
proof -
  define n where "n = d - DayFromYear 1601"
  define q where "q = n div 146097"
  define r where "r = n mod 146097"
  define c where "c = min (r div 36524) 3"
  define r2 where "r2 = r - c * 36524"
  define q4 where "q4 = r2 div 1461"
  define r3 where "r3 = r2 mod 1461"
  define a where "a = min (r3 div 365) 3"
  have n: "n = d + 134774" by (simp add: n_def DayFromYear_def)
  have f1: "0 \<le> r" "r < 146097" "n = 146097 * q + r"
    by (simp_all add: r_def q_def)
  have f2: "0 \<le> c" "c \<le> 3" "0 \<le> r2" "r2 \<le> 36524" "c < 3 \<longrightarrow> r2 < 36524"
    using f1(1,2) unfolding c_def r2_def by arith+
  have f3: "r2 = 1461 * q4 + r3" "0 \<le> r3" "r3 < 1461" "0 \<le> q4" "q4 \<le> 24"
    "r2 < 36524 \<longrightarrow> q4 = 24 \<longrightarrow> r3 < 1460"
    using f2(3,4) unfolding q4_def r3_def by arith+
  have f4: "0 \<le> a" "a \<le> 3" "365 * a \<le> r3" "a < 3 \<longrightarrow> r3 < 365 * a + 365"
    using f3(2,3) unfolding a_def by arith+
  have d: "d = 146097 * q + 36524 * c + 1461 * q4 + r3 - 134774"
    using n f1(3) f3(1) by (simp add: r2_def)
  have y: "YearFromDay d = 1601 + 400 * q + 100 * c + 4 * q4 + a"
    unfolding YearFromDay_def Let_def
    by (simp only: n_def [symmetric] q_def [symmetric] r_def [symmetric] c_def [symmetric]
        r2_def [symmetric] q4_def [symmetric] r3_def [symmetric] a_def [symmetric])
  have lo: "DayFromYear (YearFromDay d) \<le> d"
    unfolding y using DayFromYear_cycle [OF f4(1,2) f3(4,5) f2(1,2), of q] d f4(3) by simp
  have hi: "d < DayFromYear (YearFromDay d + 1)"
  proof (cases "a < 3")
    case True
    then have "DayFromYear (1601 + 400 * q + 100 * c + 4 * q4 + (a + 1)) =
               146097 * q + 36524 * c + 1461 * q4 + 365 * (a + 1) - 134774"
      using f4(1) f3(4,5) f2(1,2) by (intro DayFromYear_cycle) simp_all
    then show ?thesis unfolding y using d f4(4) True by (simp add: add.assoc)
  next
    case a3: False
    then have a: "a = 3" using f4(2) by simp
    show ?thesis
    proof (cases "q4 < 24")
      case True
      then have "DayFromYear (1601 + 400 * q + 100 * c + 4 * (q4 + 1) + 0) =
               146097 * q + 36524 * c + 1461 * (q4 + 1) + 365 * 0 - 134774"
        using f3(4) f2(1,2) by (intro DayFromYear_cycle) simp_all
      then show ?thesis unfolding y a using d f3(3) by (simp add: algebra_simps)
    next
      case False
      then have q4: "q4 = 24" using f3(5) by simp
      show ?thesis
      proof (cases "c < 3")
        case True
        then have "DayFromYear (1601 + 400 * q + 100 * (c + 1) + 4 * 0 + 0) =
               146097 * q + 36524 * (c + 1) + 1461 * 0 + 365 * 0 - 134774"
          using f2(1) by (intro DayFromYear_cycle) simp_all
        moreover have "r3 < 1460" using f2(5) f3(6) True q4 by simp
        ultimately show ?thesis unfolding y a q4 using d q4 by (simp add: algebra_simps)
      next
        case False
        then have c: "c = 3" using f2(2) by simp
        have "DayFromYear (1601 + 400 * (q + 1) + 100 * 0 + 4 * 0 + 0) =
               146097 * (q + 1) + 36524 * 0 + 1461 * 0 + 365 * 0 - 134774"
          by (intro DayFromYear_cycle) simp_all
        then show ?thesis unfolding y a q4 c using d q4 c f3(3) by (simp add: algebra_simps)
      qed
    qed
  qed
  from lo hi show ?thesis ..
qed

lemma DayFromYear_mono:
  assumes "y \<le> y'"
  shows "DayFromYear y \<le> DayFromYear y'"
proof (cases "y = y'")
  case True
  then show ?thesis by simp
next
  case False
  with assms have lt: "y + 1 \<le> y'" by simp
  define a a' b b' c c' where "a = (y - 1969) div 4" and "a' = (y' - 1969) div 4"
    and "b = (y - 1601) div 400" and "b' = (y' - 1601) div 400"
    and "c = (y - 1901) div 100" and "c' = (y' - 1901) div 100"
  have a: "a \<le> a'"
    unfolding a_def a'_def using assms by (intro zdiv_mono1) simp_all
  have b: "b \<le> b'"
    unfolding b_def b'_def using assms by (intro zdiv_mono1) simp_all
  have "y' - 1901 = 100 * c' + (y' - 1901) mod 100" "0 \<le> (y' - 1901) mod 100"
    unfolding c'_def by simp_all
  then have c': "100 * c' \<le> y' - 1901"
    by linarith
  have "y - 1901 = 100 * c + (y - 1901) mod 100" "(y - 1901) mod 100 < 100"
    unfolding c_def by simp_all
  then have c: "y - 1901 - 99 \<le> 100 * c"
    by linarith
  have "100 * c' - 100 * c \<le> 36500 * y' - 36500 * y"
    using c c' lt by linarith
  then have "c' - c \<le> 365 * y' - 365 * y"
    by linarith
  then have "365 * (y - 1970) + a - c + b \<le> 365 * (y' - 1970) + a' - c' + b'"
    using a b by (simp add: algebra_simps)
  then show ?thesis
    unfolding DayFromYear_def a_def a'_def b_def b'_def c_def c'_def .
qed

lemma YearFromDay_largest:
  assumes "DayFromYear y \<le> d"
  shows "y \<le> YearFromDay d"
proof (rule ccontr)
  assume "\<not> y \<le> YearFromDay d"
  then have "YearFromDay d + 1 \<le> y" by simp
  then have "DayFromYear (YearFromDay d + 1) \<le> DayFromYear y"
    by (rule DayFromYear_mono)
  with assms YearFromDay_bounds [of d] show False by simp
qed

text \<open>
  A year is as long as \<open>DaysInYear\<close> says, and the day that \<open>MakeDay\<close> computes for the
  first of a month is in that month of that year: it is the day that ECMA-262 asks
  \<open>MakeDay\<close> to find.
\<close>

lemma div_mod_unique:
  fixes q r k :: int
  assumes "0 \<le> r" "r < k"
  shows "(k * q + r) div k = q \<and> (k * q + r) mod k = r"
  using assms by simp

lemma div_step:
  fixes x k :: int
  assumes "1 < k"
  shows "(x + 1) div k = x div k + (if (x + 1) mod k = 0 then 1 else 0)"
proof -
  define q r where "q = x div k" and "r = x mod k"
  have r: "0 \<le> r" "r < k"
    using assms by (simp_all add: r_def)
  have x: "x = k * q + r"
    by (simp add: q_def r_def)
  show ?thesis
  proof (cases "r = k - 1")
    case True
    have e: "x + 1 = k * (q + 1) + 0"
      unfolding x True by (simp add: algebra_simps)
    have z: "(0 :: int) \<le> 0" "0 < k"
      using assms by simp_all
    have d: "(x + 1) div k = q + 1" "(x + 1) mod k = 0"
      unfolding e using div_mod_unique [OF z, of "q + 1"] by blast+
    show ?thesis
      unfolding d q_def [symmetric] by simp
  next
    case False
    with r have lt: "0 \<le> r + 1" "r + 1 < k" by simp_all
    have e: "x + 1 = k * q + (r + 1)"
      unfolding x by simp
    have d: "(x + 1) div k = q" "(x + 1) mod k = r + 1"
      unfolding e using div_mod_unique [OF lt, of q] by blast+
    show ?thesis
      unfolding d q_def [symmetric] using r by simp
  qed
qed

lemma mod_shift:
  fixes y :: int
  shows "(y - 1969 + 1) mod 4 = y mod 4" "(y - 1901 + 1) mod 100 = y mod 100"
    "(y - 1601 + 1) mod 400 = y mod 400"
proof -
  have e: "y - 1969 + 1 = y + (- 492) * 4" "y - 1901 + 1 = y + (- 19) * 100" "y - 1601 + 1 = y + (- 4) * 400"
    by simp_all
  show "(y - 1969 + 1) mod 4 = y mod 4"
    unfolding e by (rule mod_mult_self1)
  show "(y - 1901 + 1) mod 100 = y mod 100"
    unfolding e by (rule mod_mult_self1)
  show "(y - 1601 + 1) mod 400 = y mod 400"
    unfolding e by (rule mod_mult_self1)
qed

lemma mod_400:
  fixes y :: int
  shows "y mod 400 = 0 \<Longrightarrow> y mod 100 = 0" and "y mod 100 = 0 \<Longrightarrow> y mod 4 = 0"
proof -
  have a: "y mod 400 mod 100 = y mod 100"
    by (rule mod_mod_cancel) simp
  have b: "y mod 100 mod 4 = y mod 4"
    by (rule mod_mod_cancel) simp
  show "y mod 400 = 0 \<Longrightarrow> y mod 100 = 0"
    using a by simp
  show "y mod 100 = 0 \<Longrightarrow> y mod 4 = 0"
    using b by simp
qed

lemma DayFromYear_step: "DayFromYear (y + 1) = DayFromYear y + DaysInYear y"
proof -
  have s: "y + 1 - 1969 = y - 1969 + 1" "y + 1 - 1901 = y - 1901 + 1" "y + 1 - 1601 = y - 1601 + 1"
    by simp_all
  have d4: "(y - 1969 + 1) div 4 = (y - 1969) div 4 + (if y mod 4 = 0 then 1 else 0)"
    using div_step [of 4 "y - 1969"] unfolding mod_shift by simp
  have d100: "(y - 1901 + 1) div 100 = (y - 1901) div 100 + (if y mod 100 = 0 then 1 else 0)"
    using div_step [of 100 "y - 1901"] unfolding mod_shift by simp
  have d400: "(y - 1601 + 1) div 400 = (y - 1601) div 400 + (if y mod 400 = 0 then 1 else 0)"
    using div_step [of 400 "y - 1601"] unfolding mod_shift by simp
  show ?thesis
    unfolding DayFromYear_def DaysInYear_def s d4 d100 d400
    using mod_400 [of y] by auto
qed

lemma YearFromDay_unique:
  assumes "DayFromYear y \<le> d" and "d < DayFromYear (y + 1)"
  shows "YearFromDay d = y"
proof (rule antisym)
  show "y \<le> YearFromDay d"
    using assms(1) by (rule YearFromDay_largest)
  show "YearFromDay d \<le> y"
  proof (rule ccontr)
    assume "\<not> YearFromDay d \<le> y"
    then have "y + 1 \<le> YearFromDay d" by simp
    then have "DayFromYear (y + 1) \<le> DayFromYear (YearFromDay d)"
      by (rule DayFromYear_mono)
    with YearFromDay_bounds [of d] assms(2) show False by simp
  qed
qed

lemma MakeDay_first_of_month:
  assumes "m \<in> {0, 1, 2, 3, 4, 5, 6, 7, 8, 9, 10, 11}"
  shows "YearFromTime (MakeDay y m 1 * msPerDay) = y \<and>
         MonthFromTime (MakeDay y m 1 * msPerDay) = m \<and>
         DateFromTime (MakeDay y m 1 * msPerDay) = 1"
proof -
  define leap :: int where "leap = (if DaysInYear y = 366 then 1 else 0)"
  have cases: "m = 0 \<or> m = 1 \<or> m = 2 \<or> m = 3 \<or> m = 4 \<or> m = 5 \<or> m = 6 \<or> m = 7 \<or> m = 8 \<or>
      m = 9 \<or> m = 10 \<or> m = 11"
    using assms by simp
  have m: "m div 12 = 0 \<and> m mod 12 = m"
    using cases by (elim disjE) simp_all
  have day: "Day (MakeDay y m 1 * msPerDay) = DayFromYear y + MonthStart m leap"
    by (simp add: Day_def msPerDay_def MakeDay_def m leap_def)
  have leap: "leap = 0 \<or> leap = 1" "DaysInYear y = 365 + leap"
    by (simp_all add: leap_def DaysInYear_def)
  have start: "0 \<le> MonthStart m leap \<and> MonthStart m leap < DaysInYear y"
    using cases leap by (elim disjE) (simp_all add: MonthStart_def)
  have year: "YearFromTime (MakeDay y m 1 * msPerDay) = y"
    unfolding YearFromTime_def day
    using start by (intro YearFromDay_unique) (simp_all add: DayFromYear_step)
  have within: "DayWithinYear (MakeDay y m 1 * msPerDay) = MonthStart m leap"
    by (simp add: DayWithinYear_def day year)
  have inleap: "InLeapYear (MakeDay y m 1 * msPerDay) = leap"
    by (simp add: InLeapYear_def year leap_def)
  have month: "MonthFromTime (MakeDay y m 1 * msPerDay) = m"
    unfolding MonthFromTime_def within inleap Let_def
    using cases leap(1) by (elim disjE) (simp_all add: MonthStart_def)
  have date: "DateFromTime (MakeDay y m 1 * msPerDay) = 1"
    by (simp add: DateFromTime_def within inleap month)
  from year month date show ?thesis by simp
qed

section \<open>The cutoff date\<close>

text \<open>
  Setting the day of the month to the current one minus \<open>n\<close> moves the local time back
  by \<open>n\<close> days, whatever the month and the year: \<open>MakeDay\<close> counts from the first day
  of the month from which \<open>DateFromTime\<close> has counted.
\<close>

lemma MonthFromTime_range: "0 \<le> MonthFromTime t \<and> MonthFromTime t \<le> 11"
  by (simp add: MonthFromTime_def Let_def)

lemma MakeDay_of_time:
  "MakeDay (YearFromTime t) (MonthFromTime t) (DateFromTime t - n) = Day t - n"
proof -
  have m: "MonthFromTime t div 12 = 0" "MonthFromTime t mod 12 = MonthFromTime t"
    using MonthFromTime_range [of t] by simp_all
  show ?thesis
    by (simp add: MakeDay_def m DateFromTime_def DayWithinYear_def InLeapYear_def)
qed

lemma MakeDate_of_time: "MakeDate (Day t - n) (TimeWithinDay t) = t - n * msPerDay"
proof -
  have "t div msPerDay * msPerDay + t mod msPerDay = t"
    by simp
  then show ?thesis
    by (simp add: MakeDate_def Day_def TimeWithinDay_def algebra_simps)
qed

lemma setDate_getDate:
  "setDate tza (Some t) (map_option (\<lambda>d. d - n) (getDate tza (Some t))) =
   TimeClip (UTC tza (LocalTime tza t - n * msPerDay))"
  by (simp add: setDate_def getDate_def MakeDay_of_time MakeDate_of_time)

lemma getCutoffDate_eq:
  "getCutoffDate P n w =
     (TimeClip (UTC (LocalTZA P) (LocalTime (LocalTZA P) (clock P (clock_reads w)) - n * msPerDay)),
      w\<lparr>clock_reads := Suc (clock_reads w)\<rparr>)"
  by (simp add: getCutoffDate_def new_Date_def setDate_getDate)

lemma getCutoffDate_in_range:
  assumes "\<bar>UTC (LocalTZA P) (LocalTime (LocalTZA P) (clock P (clock_reads w)) - n * msPerDay)\<bar>
             \<le> 8640000000000000"
  shows "getCutoffDate P n w =
     (Some (UTC (LocalTZA P) (LocalTime (LocalTZA P) (clock P (clock_reads w)) - n * msPerDay)),
      w\<lparr>clock_reads := Suc (clock_reads w)\<rparr>)"
  using assms by (simp add: getCutoffDate_eq TimeClip_def)

lemma fixed_offset:
  assumes "\<forall>t local. tza t local = offset"
  shows "UTC tza (LocalTime tza t - d) = t - d"
  using assms by (simp add: UTC_def LocalTime_def)

lemma sample_cutoff:
  "getCutoffDate (sample_platform script license fault) n start =
     (TimeClip (31536000000 - n * msPerDay), start\<lparr>clock_reads := 1\<rparr>)"
  by (simp add: getCutoffDate_eq sample_platform_def start_def UTC_def LocalTime_def)

text \<open>
  \<^bold>\<open>C6\<close>, as the code has it. For every \<open>daysAgo > 0\<close> whose result is a valid time value
  (at most \<open>8.64 * 10^15\<close> milliseconds from the epoch), \<^verbatim>\<open>getCutoffDate\<close> reads the
  clock once and returns that reading moved back by \<open>daysAgo\<close> calendar days of local
  time: the same local time of day, \<open>daysAgo\<close> days earlier. Nothing else of the
  world changes, and no later reading of the clock enters the result. In a time zone with
  a fixed offset the result is the reading minus \<open>daysAgo\<close> times 86400000 milliseconds.
\<close>

theorem getCutoffDate_positive:
  assumes "0 < n"
    and "\<bar>UTC (LocalTZA P) (LocalTime (LocalTZA P) (clock P (clock_reads w)) - n * msPerDay)\<bar>
           \<le> 8640000000000000"
  shows "getCutoffDate P n w =
           (Some (UTC (LocalTZA P) (LocalTime (LocalTZA P) (clock P (clock_reads w)) - n * msPerDay)),
            w\<lparr>clock_reads := Suc (clock_reads w)\<rparr>)
         \<and> ((\<forall>t local. LocalTZA P t local = offset) \<longrightarrow>
              fst (getCutoffDate P n w) = Some (clock P (clock_reads w) - n * msPerDay))"
proof (intro conjI impI)
  show eq: "getCutoffDate P n w =
           (Some (UTC (LocalTZA P) (LocalTime (LocalTZA P) (clock P (clock_reads w)) - n * msPerDay)),
            w\<lparr>clock_reads := Suc (clock_reads w)\<rparr>)"
    using assms(2) by (rule getCutoffDate_in_range)
  assume "\<forall>t local. LocalTZA P t local = offset"
  then have "UTC (LocalTZA P) (LocalTime (LocalTZA P) (clock P (clock_reads w)) - n * msPerDay) =
             clock P (clock_reads w) - n * msPerDay"
    by (rule fixed_offset)
  with eq show "fst (getCutoffDate P n w) = Some (clock P (clock_reads w) - n * msPerDay)"
    by simp
qed

theorem getCutoffDate_positive_witness:
  "(0 :: int) < 365
   \<and> \<bar>UTC (LocalTZA (sample_platform [] not_found no_fault))
         (LocalTime (LocalTZA (sample_platform [] not_found no_fault))
            (clock (sample_platform [] not_found no_fault) (clock_reads start)) - 365 * msPerDay)\<bar>
       \<le> 8640000000000000
   \<and> (\<forall>t local. LocalTZA (sample_platform [] not_found no_fault) t local = 0)
   \<and> getCutoffDate (sample_platform [] not_found no_fault) 365 start = (Some 0, start\<lparr>clock_reads := 1\<rparr>)"
proof -
  let ?P = "sample_platform [] not_found no_fault"
  have pos: "(0 :: int) < 365" by simp
  have range: "\<bar>UTC (LocalTZA ?P) (LocalTime (LocalTZA ?P) (clock ?P (clock_reads start)) - 365 * msPerDay)\<bar>
       \<le> 8640000000000000"
    by (simp add: sample_platform_def UTC_def LocalTime_def msPerDay_def)
  have utc: "\<forall>t local. LocalTZA ?P t local = 0"
    by (simp add: sample_platform_def)
  from getCutoffDate_positive [OF pos range, of 0] utc
  have "getCutoffDate ?P 365 start = (Some 0, start\<lparr>clock_reads := 1\<rparr>)"
    by (simp add: sample_platform_def UTC_def LocalTime_def msPerDay_def start_def)
  with pos range utc show ?thesis by simp
qed

text \<open>
  Without the bound on the result the equation fails: 200000000 days before 1971 is
  outside the range of time values, and the date returned is the invalid date, on which
  \<^verbatim>\<open>toISOString\<close> throws.
\<close>

theorem getCutoffDate_beyond_range_counterexample:
  "0 < (200000000 :: int) \<and>
   getCutoffDate (sample_platform [] not_found no_fault) 200000000 start = (None, start\<lparr>clock_reads := 1\<rparr>) \<and>
   toISOString (fst (getCutoffDate (sample_platform [] not_found no_fault) 200000000 start)) =
     Inl (RangeError ''Invalid time value'')"
  by (simp add: sample_cutoff TimeClip_def msPerDay_def toISOString_def)

text \<open>
  \<^bold>\<open>C5\<close>, as the code has it. \<^verbatim>\<open>getCutoffDate\<close> has no check of its argument and no
  way to reject it: for every \<open>daysAgo \<le> 0\<close> whose result is a valid time value it
  returns a date as for a positive argument, the clock's reading moved by \<open>- daysAgo\<close>
  calendar days. In a time zone with a fixed offset that is the reading itself for 0 and
  a time after it for a negative argument.
\<close>

theorem getCutoffDate_accepts_nonpositive:
  assumes "n \<le> 0"
    and "\<bar>UTC (LocalTZA P) (LocalTime (LocalTZA P) (clock P (clock_reads w)) - n * msPerDay)\<bar>
           \<le> 8640000000000000"
  shows "getCutoffDate P n w =
           (Some (UTC (LocalTZA P) (LocalTime (LocalTZA P) (clock P (clock_reads w)) - n * msPerDay)),
            w\<lparr>clock_reads := Suc (clock_reads w)\<rparr>)
         \<and> ((\<forall>t local. LocalTZA P t local = offset) \<longrightarrow>
              (\<exists>t. fst (getCutoffDate P n w) = Some t \<and> clock P (clock_reads w) \<le> t))"
proof (intro conjI impI)
  show eq: "getCutoffDate P n w =
           (Some (UTC (LocalTZA P) (LocalTime (LocalTZA P) (clock P (clock_reads w)) - n * msPerDay)),
            w\<lparr>clock_reads := Suc (clock_reads w)\<rparr>)"
    using assms(2) by (rule getCutoffDate_in_range)
  assume "\<forall>t local. LocalTZA P t local = offset"
  then have "UTC (LocalTZA P) (LocalTime (LocalTZA P) (clock P (clock_reads w)) - n * msPerDay) =
             clock P (clock_reads w) - n * msPerDay"
    by (rule fixed_offset)
  with eq have "fst (getCutoffDate P n w) = Some (clock P (clock_reads w) - n * msPerDay)"
    by simp
  moreover have "n * msPerDay \<le> 0"
    using assms(1) by (simp add: msPerDay_def)
  ultimately show "\<exists>t. fst (getCutoffDate P n w) = Some t \<and> clock P (clock_reads w) \<le> t"
    by simp
qed

theorem getCutoffDate_accepts_nonpositive_witness:
  "(- 5 :: int) \<le> 0
   \<and> \<bar>UTC (LocalTZA (sample_platform [] not_found no_fault))
         (LocalTime (LocalTZA (sample_platform [] not_found no_fault))
            (clock (sample_platform [] not_found no_fault) (clock_reads start)) - (- 5) * msPerDay)\<bar>
       \<le> 8640000000000000
   \<and> (\<forall>t local. LocalTZA (sample_platform [] not_found no_fault) t local = 0)
   \<and> getCutoffDate (sample_platform [] not_found no_fault) (- 5) start =
       (Some 31968000000, start\<lparr>clock_reads := 1\<rparr>)
   \<and> clock (sample_platform [] not_found no_fault) (clock_reads start) \<le> 31968000000"
proof -
  let ?P = "sample_platform [] not_found no_fault"
  have neg: "(- 5 :: int) \<le> 0" by simp
  have range: "\<bar>UTC (LocalTZA ?P) (LocalTime (LocalTZA ?P) (clock ?P (clock_reads start)) - (- 5) * msPerDay)\<bar>
       \<le> 8640000000000000"
    by (simp add: sample_platform_def UTC_def LocalTime_def msPerDay_def)
  have utc: "\<forall>t local. LocalTZA ?P t local = 0"
    by (simp add: sample_platform_def)
  from getCutoffDate_accepts_nonpositive [OF neg range, of 0] utc
  have "getCutoffDate ?P (- 5) start = (Some 31968000000, start\<lparr>clock_reads := 1\<rparr>)"
    by (simp add: sample_platform_def UTC_def LocalTime_def msPerDay_def start_def)
  moreover have "clock ?P (clock_reads start) \<le> 31968000000"
    by (simp add: sample_platform_def)
  ultimately show ?thesis
    using neg range utc by simp
qed

text \<open>For the argument 0 the function returns a date, the clock's reading, and no error.\<close>

theorem getCutoffDate_zero_counterexample:
  "(0 :: int) \<le> 0 \<and>
   getCutoffDate (sample_platform [] not_found no_fault) 0 start =
     (Some 31536000000, start\<lparr>clock_reads := 1\<rparr>)"
  by (simp add: sample_cutoff TimeClip_def)

section \<open>Pagination\<close>

text \<open>One turn of the loop, for each of the three ways it can go.\<close>

lemma loop_throws:
  assumes "Users_list P (list_calls w) (list_request q tok) = Inl e"
  shows "getInactiveUsers_loop P q users tok w =
         Some (users, Logger_log (''Error listing users: '' @ message e) (count_list_call w))"
  by (subst getInactiveUsers_loop.simps) (simp add: assms)

lemma loop_next_page:
  assumes "Users_list P (list_calls w) (list_request q tok) = Inr page"
    and "truthy (response_nextPageToken page)"
  shows "getInactiveUsers_loop P q users tok w =
         getInactiveUsers_loop P q (users @ page_items page) (response_nextPageToken page) (count_list_call w)"
  by (subst getInactiveUsers_loop.simps) (simp add: assms page_items_def split: option.split)

lemma loop_last_page:
  assumes "Users_list P (list_calls w) (list_request q tok) = Inr page"
    and "\<not> truthy (response_nextPageToken page)"
  shows "getInactiveUsers_loop P q users tok w = Some (users @ page_items page, count_list_call w)"
  by (subst getInactiveUsers_loop.simps) (simp add: assms page_items_def split: option.split)

lemma loop_pages:
  assumes "pages_served P q (list_calls w) tok pages"
  shows "getInactiveUsers_loop P q users tok w =
         getInactiveUsers_loop P q (users @ concat (map page_items pages)) (token_after tok pages)
           (w\<lparr>list_calls := list_calls w + length pages\<rparr>)"
  using assms
proof (induction pages arbitrary: users tok w)
  case Nil
  then show ?case by simp
next
  case (Cons page pages)
  from Cons.prems have served: "Users_list P (list_calls w) (list_request q tok) = Inr page"
    and more: "truthy (response_nextPageToken page)"
    and rest: "pages_served P q (list_calls (count_list_call w)) (response_nextPageToken page) pages"
    by (simp_all add: count_list_call_def)
  have "getInactiveUsers_loop P q users tok w =
        getInactiveUsers_loop P q (users @ page_items page) (response_nextPageToken page) (count_list_call w)"
    using served more by (rule loop_next_page)
  also have "\<dots> = getInactiveUsers_loop P q ((users @ page_items page) @ concat (map page_items pages))
        (token_after (response_nextPageToken page) pages)
        (count_list_call w\<lparr>list_calls := list_calls (count_list_call w) + length pages\<rparr>)"
    using rest by (rule Cons.IH)
  finally show ?case
    by (simp add: count_list_call_def)
qed

lemma getInactiveUsers_valid:
  "getInactiveUsers P (Some t) w =
   map_option (\<lambda>(users, w'). (Inr users, w')) (getInactiveUsers_loop P (cutoff_query t) [] None w)"
  by (simp add: getInactiveUsers_def toISOString_def cutoff_query_def)

text \<open>
  \<^bold>\<open>C3\<close>. When the directory answers the requests of the loop with the pages \<open>pages\<close>,
  each carrying a token for the next request, and then with a page \<open>final\<close> that carries
  none (no token, or the empty string), \<^verbatim>\<open>getInactiveUsers\<close> returns the users of all
  these pages, in the order of the pages and within a page in the order of the page,
  after one request per page; their number is the sum of the sizes of the pages, which
  for pages of 500, 500 and 37 users is 1037.
\<close>

theorem getInactiveUsers_all_pages:
  assumes "pages_served P (cutoff_query t) (list_calls w) None pages"
    and "Users_list P (list_calls w + length pages)
           (list_request (cutoff_query t) (token_after None pages)) = Inr final"
    and "\<not> truthy (response_nextPageToken final)"
  shows "getInactiveUsers P (Some t) w =
           Some (Inr (concat (map page_items (pages @ [final]))),
                 w\<lparr>list_calls := list_calls w + length pages + 1\<rparr>)
         \<and> length (concat (map page_items (pages @ [final]))) =
           sum_list (map (\<lambda>page. length (page_items page)) (pages @ [final]))
         \<and> (map (\<lambda>page. length (page_items page)) (pages @ [final]) = [500, 500, 37] \<longrightarrow>
              length (concat (map page_items (pages @ [final]))) = 1037)"
proof (intro conjI impI)
  let ?w = "w\<lparr>list_calls := list_calls w + length pages\<rparr>"
  have "getInactiveUsers_loop P (cutoff_query t) [] None w =
        getInactiveUsers_loop P (cutoff_query t) ([] @ concat (map page_items pages))
          (token_after None pages) ?w"
    using assms(1) by (rule loop_pages)
  also have "\<dots> = Some (([] @ concat (map page_items pages)) @ page_items final, count_list_call ?w)"
    using assms(2,3) by (intro loop_last_page) simp_all
  finally show "getInactiveUsers P (Some t) w =
           Some (Inr (concat (map page_items (pages @ [final]))),
                 w\<lparr>list_calls := list_calls w + length pages + 1\<rparr>)"
    by (simp add: getInactiveUsers_valid count_list_call_def)
  show sum: "length (concat (map page_items (pages @ [final]))) =
           sum_list (map (\<lambda>page. length (page_items page)) (pages @ [final]))"
    by (simp add: length_concat comp_def)
  assume "map (\<lambda>page. length (page_items page)) (pages @ [final]) = [500, 500, 37]"
  then show "length (concat (map page_items (pages @ [final]))) = 1037"
    unfolding sum by simp
qed

text \<open>
  The two ways of describing the pages agree, and pages served one after another can be
  taken in two runs.
\<close>

lemma requests_answered_served:
  "requests_answered P q k tok pages = pages_served P q k tok pages"
  by (induction pages arbitrary: k tok) (simp_all add: list_request_def)

lemma pages_served_append:
  "pages_served P q k tok (xs @ ys) =
   (pages_served P q k tok xs \<and> pages_served P q (k + length xs) (token_after tok xs) ys)"
  by (induction xs arbitrary: k tok) auto

lemma token_after_append:
  "token_after tok (xs @ ys) = token_after (token_after tok xs) ys"
  by (induction xs arbitrary: tok) simp_all

text \<open>
  \<^bold>\<open>C10\<close>. Let the directory answer the first requests with the pages \<open>before\<close>, then
  with a response that has a token \<open>tok'\<close> (present and not empty) and no \<^verbatim>\<open>users\<close>,
  or an empty list of them, then, to requests of which the first has \<open>tok'\<close> as its
  \<^verbatim>\<open>pageToken\<close>, with the pages \<open>after\<close> and a last page \<open>final\<close>. Then
  \<^verbatim>\<open>getInactiveUsers\<close> returns the users of \<open>before\<close>, as they were when the response
  without users came, followed by those of \<open>after\<close> and \<open>final\<close>: the response has
  added nothing and has ended nothing. There has been one request for each response, and
  nothing is logged.
\<close>

theorem page_without_items:
  assumes before: "requests_answered P (cutoff_query t) (list_calls w) None before"
    and itemless: "Users_list P (list_calls w + length before)
             \<lparr>customer = ''my_customer'', query = cutoff_query t, maxResults = 500,
              pageToken = token_after None before, viewType = ''domain_public''\<rparr> =
           Inr (Response items tok')"
    and empty: "items = None \<or> items = Some []"
    and token: "truthy tok'"
    and after: "requests_answered P (cutoff_query t) (list_calls w + length before + 1) tok' after"
    and final: "Users_list P (list_calls w + length before + 1 + length after)
             \<lparr>customer = ''my_customer'', query = cutoff_query t, maxResults = 500,
              pageToken = token_after tok' after, viewType = ''domain_public''\<rparr> =
           Inr final"
    and stop: "\<not> truthy (response_nextPageToken final)"
  shows "getInactiveUsers P (Some t) w =
           Some (Inr (concat (map page_items before) @ concat (map page_items after) @ page_items final),
                 w\<lparr>list_calls := list_calls w + length before + length after + 2\<rparr>)"
proof -
  let ?q = "cutoff_query t"
  let ?pages = "before @ Response items tok' # after"
  let ?w = "w\<lparr>list_calls := list_calls w + length ?pages\<rparr>"
  have none: "page_items (Response items tok') = []"
    using empty by (auto simp: page_items_def)
  have "pages_served P ?q (list_calls w) None ?pages"
    using before itemless token after
    by (simp add: pages_served_append requests_answered_served list_request_def)
  then have "getInactiveUsers_loop P ?q [] None w =
        getInactiveUsers_loop P ?q ([] @ concat (map page_items ?pages)) (token_after None ?pages) ?w"
    by (rule loop_pages)
  also have "\<dots> = Some (([] @ concat (map page_items ?pages)) @ page_items final, count_list_call ?w)"
    using final stop by (intro loop_last_page) (simp_all add: token_after_append list_request_def add.assoc)
  finally show ?thesis
    by (simp add: getInactiveUsers_valid count_list_call_def none)
qed

text \<open>The pages of the sample platform, and the theorems above on them.\<close>

lemma sample_Users_list:
  "k < length script \<Longrightarrow> Users_list (sample_platform script license fault) k args = script ! k"
  by (simp add: sample_platform_def scripted_def)

theorem getInactiveUsers_all_pages_witness:
  "pages_served (sample_platform [Inr page1, Inr page2, Inr page3] not_found no_fault)
     (cutoff_query 0) (list_calls start) None [page1, page2]
   \<and> Users_list (sample_platform [Inr page1, Inr page2, Inr page3] not_found no_fault)
       (list_calls start + length [page1, page2])
       (list_request (cutoff_query 0) (token_after None [page1, page2])) = Inr page3
   \<and> \<not> truthy (response_nextPageToken page3)
   \<and> map (\<lambda>page. length (page_items page)) ([page1, page2] @ [page3]) = [500, 500, 37]
   \<and> getInactiveUsers (sample_platform [Inr page1, Inr page2, Inr page3] not_found no_fault) (Some 0) start =
       Some (Inr (replicate 500 (sample_user ''a'') @ replicate 500 (sample_user ''b'') @
                  replicate 37 (sample_user ''c'')),
             start\<lparr>list_calls := 3\<rparr>)
   \<and> length (replicate 500 (sample_user ''a'') @ replicate 500 (sample_user ''b'') @
              replicate 37 (sample_user ''c'')) = 1037"
proof -
  let ?P = "sample_platform [Inr page1, Inr page2, Inr page3] not_found no_fault"
  have served: "pages_served ?P (cutoff_query 0) (list_calls start) None [page1, page2]"
    by (simp add: sample_Users_list start_def page1_def page2_def truthy_def)
  have last: "Users_list ?P (list_calls start + length [page1, page2])
       (list_request (cutoff_query 0) (token_after None [page1, page2])) = Inr page3"
    by (simp add: sample_Users_list start_def)
  have stop: "\<not> truthy (response_nextPageToken page3)"
    by (simp add: page3_def truthy_def)
  have items: "concat (map page_items ([page1, page2] @ [page3])) =
      replicate 500 (sample_user ''a'') @ replicate 500 (sample_user ''b'') @ replicate 37 (sample_user ''c'')"
    by (simp add: page_items_def page1_def page2_def page3_def)
  have sizes: "map (\<lambda>page. length (page_items page)) ([page1, page2] @ [page3]) = [500, 500, 37]"
    by (simp add: page_items_def page1_def page2_def page3_def)
  from getInactiveUsers_all_pages [OF served last stop]
  have "getInactiveUsers ?P (Some 0) start =
       Some (Inr (replicate 500 (sample_user ''a'') @ replicate 500 (sample_user ''b'') @
                  replicate 37 (sample_user ''c'')),
             start\<lparr>list_calls := 3\<rparr>)"
    and "length (replicate 500 (sample_user ''a'') @ replicate 500 (sample_user ''b'') @
              replicate 37 (sample_user ''c'')) = 1037"
    using sizes unfolding items by (simp_all add: start_def)
  with served last stop sizes show ?thesis by simp
qed

theorem page_without_items_witness:
  "requests_answered token_platform (cutoff_query 0) (list_calls start) None [page1]
   \<and> Users_list token_platform (list_calls start + length [page1])
       \<lparr>customer = ''my_customer'', query = cutoff_query 0, maxResults = 500,
        pageToken = token_after None [page1], viewType = ''domain_public''\<rparr> =
     Inr (Response None (Some ''token1b''))
   \<and> ((None :: user list option) = None \<or> (None :: user list option) = Some [])
   \<and> truthy (Some ''token1b'')
   \<and> requests_answered token_platform (cutoff_query 0) (list_calls start + length [page1] + 1)
       (Some ''token1b'') [page2]
   \<and> Users_list token_platform (list_calls start + length [page1] + 1 + length [page2])
       \<lparr>customer = ''my_customer'', query = cutoff_query 0, maxResults = 500,
        pageToken = token_after (Some ''token1b'') [page2], viewType = ''domain_public''\<rparr> =
     Inr page3
   \<and> \<not> truthy (response_nextPageToken page3)
   \<and> getInactiveUsers token_platform (Some 0) start =
       Some (Inr (replicate 500 (sample_user ''a'') @ replicate 500 (sample_user ''b'') @
                  replicate 37 (sample_user ''c'')),
             start\<lparr>list_calls := 4\<rparr>)"
proof -
  have before: "requests_answered token_platform (cutoff_query 0) (list_calls start) None [page1]"
    by (simp add: token_platform_def by_token_def page1_def truthy_def)
  have itemless: "Users_list token_platform (list_calls start + length [page1])
       \<lparr>customer = ''my_customer'', query = cutoff_query 0, maxResults = 500,
        pageToken = token_after None [page1], viewType = ''domain_public''\<rparr> =
     Inr (Response None (Some ''token1b''))"
    by (simp add: token_platform_def by_token_def page1_def)
  have empty: "(None :: user list option) = None \<or> (None :: user list option) = Some []"
    by simp
  have token: "truthy (Some ''token1b'')"
    by (simp add: truthy_def)
  have after: "requests_answered token_platform (cutoff_query 0) (list_calls start + length [page1] + 1)
       (Some ''token1b'') [page2]"
    by (simp add: token_platform_def by_token_def page2_def truthy_def)
  have final: "Users_list token_platform (list_calls start + length [page1] + 1 + length [page2])
       \<lparr>customer = ''my_customer'', query = cutoff_query 0, maxResults = 500,
        pageToken = token_after (Some ''token1b'') [page2], viewType = ''domain_public''\<rparr> =
     Inr page3"
    by (simp add: token_platform_def by_token_def page2_def)
  have stop: "\<not> truthy (response_nextPageToken page3)"
    by (simp add: page3_def truthy_def)
  from page_without_items [OF before itemless empty token after final stop]
  have "getInactiveUsers token_platform (Some 0) start =
       Some (Inr (replicate 500 (sample_user ''a'') @ replicate 500 (sample_user ''b'') @
                  replicate 37 (sample_user ''c'')),
             start\<lparr>list_calls := 4\<rparr>)"
    by (simp add: page_items_def page1_def page2_def page3_def start_def)
  with before itemless empty token after final stop show ?thesis
    by (intro conjI)
qed


section \<open>The license filter\<close>

lemma filter_hasLicense_world:
  "snd (filter_hasLicense P cfg users w) = w\<lparr>get_calls := get_calls w + length users\<rparr>"
proof (induction users arbitrary: w)
  case Nil
  show ?case by simp
next
  case (Cons user rest)
  show ?case
    using Cons.IH [of "w\<lparr>get_calls := Suc (get_calls w)\<rparr>"]
    by (simp add: hasLicense_def split_beta)
qed

lemma filter_hasLicense_append:
  "fst (filter_hasLicense P cfg (xs @ ys) w) =
   fst (filter_hasLicense P cfg xs w) @
   fst (filter_hasLicense P cfg ys (w\<lparr>get_calls := get_calls w + length xs\<rparr>))"
proof (induction xs arbitrary: w)
  case Nil
  show ?case by simp
next
  case (Cons user rest)
  show ?case
    using Cons.IH [of "w\<lparr>get_calls := Suc (get_calls w)\<rparr>"]
    by (simp add: hasLicense_def split_beta)
qed

lemma filter_hasLicense_Cons:
  "fst (filter_hasLicense P cfg (user # rest) w) =
   (case LicenseAssignments_get P (get_calls w) (PRODUCT_ID cfg) (TARGET_SKU_ID cfg) (primaryEmail user) of
      Inl e \<Rightarrow> []
    | Inr license \<Rightarrow> [user]) @
   fst (filter_hasLicense P cfg rest (w\<lparr>get_calls := Suc (get_calls w)\<rparr>))"
  by (simp add: hasLicense_def split_beta split: sum.split)

text \<open>
  \<^bold>\<open>C4\<close>. Whatever the license service answers, the users that the filter keeps are a
  subsequence of the candidates: each of them is a candidate, and they are in the order
  of the candidates.
\<close>

theorem matched_subseq:
  "subseq (fst (filter_hasLicense P cfg candidates w)) candidates \<and>
   set (fst (filter_hasLicense P cfg candidates w)) \<subseteq> set candidates"
proof -
  have "subseq (fst (filter_hasLicense P cfg candidates w)) candidates"
  proof (induction candidates arbitrary: w)
    case Nil
    show ?case by simp
  next
    case (Cons user rest)
    show ?case
      using Cons.IH [of "w\<lparr>get_calls := Suc (get_calls w)\<rparr>"]
      by (auto simp add: filter_hasLicense_Cons simp del: filter_hasLicense.simps split: sum.split
          intro: subseq_Cons')
  qed
  then show ?thesis
    by (auto dest: list_emb_set)
qed

text \<open>
  \<^bold>\<open>C1\<close>, as the code has it. A candidate whose call to the license service throws, be it
  a 404 or anything else, is left out: the filter keeps what it keeps of the candidates
  before and after. The filter changes nothing of the world but the number of calls made:
  whatever was thrown, nothing is logged and nothing is counted.
\<close>

theorem failed_probe_excluded:
  assumes "i < length users"
    and "LicenseAssignments_get P (get_calls w + i) (PRODUCT_ID cfg) (TARGET_SKU_ID cfg)
           (primaryEmail (users ! i)) = Inl e"
  shows "fst (filter_hasLicense P cfg users w) =
           fst (filter_hasLicense P cfg (take i users) w) @
           fst (filter_hasLicense P cfg (drop (Suc i) users) (w\<lparr>get_calls := get_calls w + Suc i\<rparr>))
         \<and> snd (filter_hasLicense P cfg users w) = w\<lparr>get_calls := get_calls w + length users\<rparr>"
proof
  have split: "users = take i users @ (users ! i) # drop (Suc i) users"
    using assms(1) by (simp add: id_take_nth_drop)
  have len: "length (take i users) = i"
    using assms(1) by simp
  have "fst (filter_hasLicense P cfg (take i users @ (users ! i) # drop (Suc i) users) w) =
        fst (filter_hasLicense P cfg (take i users) w) @
        fst (filter_hasLicense P cfg ((users ! i) # drop (Suc i) users) (w\<lparr>get_calls := get_calls w + i\<rparr>))"
    by (simp only: filter_hasLicense_append len)
  also have "fst (filter_hasLicense P cfg ((users ! i) # drop (Suc i) users) (w\<lparr>get_calls := get_calls w + i\<rparr>)) =
        fst (filter_hasLicense P cfg (drop (Suc i) users) (w\<lparr>get_calls := get_calls w + Suc i\<rparr>))"
    using assms(2) by (simp add: filter_hasLicense_Cons del: filter_hasLicense.simps)
  finally show "fst (filter_hasLicense P cfg users w) =
           fst (filter_hasLicense P cfg (take i users) w) @
           fst (filter_hasLicense P cfg (drop (Suc i) users) (w\<lparr>get_calls := get_calls w + Suc i\<rparr>))"
    using split by simp
  show "snd (filter_hasLicense P cfg users w) = w\<lparr>get_calls := get_calls w + length users\<rparr>"
    by (rule filter_hasLicense_world)
qed

theorem failed_probe_excluded_witness:
  "(0 :: nat) < length [sample_user ''D'', sample_user ''E'']
   \<and> LicenseAssignments_get (sample_platform [] (\<lambda>u. if u = ''D@x.com'' then timeout u else assigned u) no_fault)
       (get_calls start + 0) (PRODUCT_ID CONFIG) (TARGET_SKU_ID CONFIG)
       (primaryEmail ([sample_user ''D'', sample_user ''E''] ! 0)) = Inl (TransportError ''Timeout'')
   \<and> filter_hasLicense (sample_platform [] (\<lambda>u. if u = ''D@x.com'' then timeout u else assigned u) no_fault)
       CONFIG [sample_user ''D'', sample_user ''E''] start =
     ([sample_user ''E''], start\<lparr>get_calls := 2\<rparr>)"
proof -
  let ?P = "sample_platform [] (\<lambda>u. if u = ''D@x.com'' then timeout u else assigned u) no_fault"
  have i: "(0 :: nat) < length [sample_user ''D'', sample_user ''E'']"
    by simp
  have throws: "LicenseAssignments_get ?P (get_calls start + 0) (PRODUCT_ID CONFIG) (TARGET_SKU_ID CONFIG)
       (primaryEmail ([sample_user ''D'', sample_user ''E''] ! 0)) = Inl (TransportError ''Timeout'')"
    by (simp add: sample_platform_def sample_user_def timeout_def)
  have rest: "fst (filter_hasLicense ?P CONFIG [sample_user ''E''] (start\<lparr>get_calls := 1\<rparr>)) = [sample_user ''E'']"
    by (simp add: hasLicense_def sample_platform_def sample_user_def assigned_def)
  from failed_probe_excluded [OF i throws] rest
  have "fst (filter_hasLicense ?P CONFIG [sample_user ''D'', sample_user ''E''] start) = [sample_user ''E'']"
    and "snd (filter_hasLicense ?P CONFIG [sample_user ''D'', sample_user ''E''] start) = start\<lparr>get_calls := 2\<rparr>"
    by (simp_all add: start_def)
  then have "filter_hasLicense ?P CONFIG [sample_user ''D'', sample_user ''E''] start =
     ([sample_user ''E''], start\<lparr>get_calls := 2\<rparr>)"
    by (simp add: prod_eq_iff)
  with i throws show ?thesis by simp
qed

section \<open>The export\<close>

lemma setValues_after_header: "setValues 2 rows [row] = row # rows"
  by (simp add: setValues_def)

lemma exportToSheet_succeeds:
  assumes "\<forall>call. sheet_fault P call = None" and "users \<noteq> []"
  shows "exportToSheet P users w =
     (Inr (),
      w\<lparr>spreadsheets := spreadsheets w @
           [\<lparr>title = ''Inactive Enterprise Plus Users Audit'',
             url = new_url P (length (spreadsheets w)),
             grid = header # map user_row users\<rparr>],
         logs := logs w @ [''Report generated: '' @ new_url P (length (spreadsheets w))]\<rparr>)"
  using assms
  by (simp add: exportToSheet_def Let_def on_sheet_def appendRow_def setValues_after_header Logger_log_def)

lemma exportToSheet_throws_world:
  assumes "exportToSheet P users w = (Inl e, w')"
  shows "logs w' = logs w \<and> clock_reads w' = clock_reads w \<and> list_calls w' = list_calls w \<and>
         get_calls w' = get_calls w"
  using assms
  by (auto simp: exportToSheet_def Let_def on_sheet_def Logger_log_def split: option.splits if_splits)

text \<open>
  With at least one user \<^verbatim>\<open>exportToSheet\<close> makes all five calls on the spreadsheet
  service, in one order; when any of them is set to throw, the first that is throws out of
  \<^verbatim>\<open>exportToSheet\<close>, before the line with the URL is logged.
\<close>

lemma exportToSheet_throws:
  assumes some: "users \<noteq> []" and fault: "sheet_fault P call = Some e"
  shows "\<exists>e' call' w'. sheet_fault P call' = Some e' \<and> exportToSheet P users w = (Inl e', w') \<and>
           logs w' = logs w"
proof (cases "sheet_fault P Create")
  case (Some e')
  then have "exportToSheet P users w = (Inl e', w)"
    by (simp add: exportToSheet_def)
  with Some show ?thesis by blast
next
  case no_create: None
  show ?thesis
  proof (cases "sheet_fault P GetActiveSheet")
    case (Some e')
    with no_create obtain w' where "exportToSheet P users w = (Inl e', w')" "logs w' = logs w"
      by (simp add: exportToSheet_def Let_def)
    with Some show ?thesis by blast
  next
    case no_sheet: None
    show ?thesis
    proof (cases "sheet_fault P AppendRow")
      case (Some e')
      with no_create no_sheet obtain w' where "exportToSheet P users w = (Inl e', w')" "logs w' = logs w"
        by (simp add: exportToSheet_def Let_def)
      with Some show ?thesis by blast
    next
      case no_append: None
      show ?thesis
      proof (cases "sheet_fault P SetValues")
        case (Some e')
        with no_create no_sheet no_append some
        obtain w' where "exportToSheet P users w = (Inl e', w')" "logs w' = logs w"
          by (simp add: exportToSheet_def Let_def on_sheet_def)
        with Some show ?thesis by blast
      next
        case no_values: None
        show ?thesis
        proof (cases "sheet_fault P GetUrl")
          case (Some e')
          with no_create no_sheet no_append no_values some
          obtain w' where "exportToSheet P users w = (Inl e', w')" "logs w' = logs w"
            by (simp add: exportToSheet_def Let_def on_sheet_def)
          with Some show ?thesis by blast
        next
          case None
          with no_create no_sheet no_append no_values fault show ?thesis
            by (cases call) simp_all
        qed
      qed
    qed
  qed
qed

lemma toString_digit: "n < 10 \<Longrightarrow> toString n = [digit n]"
  by (simp add: toString.simps)

text \<open>
  \<^bold>\<open>C8\<close>, as the code has it. When no call on the spreadsheet service throws and there is
  at least one user, \<^verbatim>\<open>exportToSheet\<close> adds one new spreadsheet and changes no other.
  The first row of its sheet is \<^verbatim>\<open>Name\<close>, \<^verbatim>\<open>Email\<close>, \<^verbatim>\<open>Last Login Time\<close>,
  \<^verbatim>\<open>Creation Time\<close>, \<^verbatim>\<open>Suspended\<close>; the rows after it are those of the users, one
  for each in their order, with the user's full name, email, last login time, creation
  time and suspended flag as they are. The URL of the spreadsheet is logged.
\<close>

theorem exportToSheet_report:
  assumes "\<forall>call. sheet_fault P call = None" and "users \<noteq> []"
  shows "exportToSheet P users w =
     (Inr (),
      w\<lparr>spreadsheets := spreadsheets w @
           [\<lparr>title = ''Inactive Enterprise Plus Users Audit'',
             url = new_url P (length (spreadsheets w)),
             grid = [JString ''Name'', JString ''Email'', JString ''Last Login Time'',
                     JString ''Creation Time'', JString ''Suspended'']
                    # map (\<lambda>u. [fullName u, JString (primaryEmail u), lastLoginTime u,
                                 creationTime u, suspended u]) users\<rparr>],
         logs := logs w @ [''Report generated: '' @ new_url P (length (spreadsheets w))]\<rparr>)"
  using exportToSheet_succeeds [OF assms, of w] by (simp add: header_def user_row_def)

theorem exportToSheet_report_witness:
  "(\<forall>call. sheet_fault (sample_platform [] assigned no_fault) call = None)
   \<and> [alice, bob] \<noteq> []
   \<and> exportToSheet (sample_platform [] assigned no_fault) [alice, bob] start =
     (Inr (),
      start\<lparr>spreadsheets :=
           [\<lparr>title = ''Inactive Enterprise Plus Users Audit'',
             url = ''https://docs.google.com/spreadsheets/d/0'',
             grid = [[JString ''Name'', JString ''Email'', JString ''Last Login Time'',
                      JString ''Creation Time'', JString ''Suspended''],
                     [JString ''Alice Ames'', JString ''alice@x.com'', JString ''2022-01-01T08:00:00.000Z'',
                      JString ''2020-01-01T09:30:00.000Z'', JBool False],
                     [JString ''Bob Bell'', JString ''bob@y.org'', JUndefined,
                      JString ''2019-05-05T12:00:00.000Z'', JBool True]]\<rparr>],
         logs := [''Report generated: https://docs.google.com/spreadsheets/d/0'']\<rparr>)"
proof -
  let ?P = "sample_platform [] assigned no_fault"
  have ok: "\<forall>call. sheet_fault ?P call = None"
    by (simp add: sample_platform_def no_fault_def)
  have some: "[alice, bob] \<noteq> []"
    by simp
  have url: "new_url ?P 0 = ''https://docs.google.com/spreadsheets/d/0''"
    by (simp add: sample_platform_def toString_digit digit_def)
  from exportToSheet_report [OF ok some, of start] ok some show ?thesis
    by (simp add: start_def url alice_def bob_def)
qed

text \<open>
  The third and fourth cells of the first row are \<^verbatim>\<open>Last Login Time\<close> and
  \<^verbatim>\<open>Creation Time\<close>, in three and two words: the row is not
  \<^verbatim>\<open>Name, Email, LastLoginTime, CreationTime, Suspended\<close>.
\<close>

theorem header_counterexample:
  "hd (grid (hd (spreadsheets (snd (exportToSheet (sample_platform [] assigned no_fault)
      [sample_user ''A''] start))))) =
     [JString ''Name'', JString ''Email'', JString ''Last Login Time'', JString ''Creation Time'',
      JString ''Suspended'']
   \<and> hd (grid (hd (spreadsheets (snd (exportToSheet (sample_platform [] assigned no_fault)
      [sample_user ''A''] start))))) \<noteq>
     [JString ''Name'', JString ''Email'', JString ''LastLoginTime'', JString ''CreationTime'',
      JString ''Suspended'']"
proof -
  have "\<forall>call. sheet_fault (sample_platform [] assigned no_fault) call = None"
    by (simp add: sample_platform_def no_fault_def)
  then have "exportToSheet (sample_platform [] assigned no_fault) [sample_user ''A''] start =
     (Inr (),
      start\<lparr>spreadsheets := spreadsheets start @
           [\<lparr>title = ''Inactive Enterprise Plus Users Audit'',
             url = new_url (sample_platform [] assigned no_fault) (length (spreadsheets start)),
             grid = header # map user_row [sample_user ''A'']\<rparr>],
         logs := logs start @ [''Report generated: '' @
           new_url (sample_platform [] assigned no_fault) (length (spreadsheets start))]\<rparr>)"
    by (intro exportToSheet_succeeds) simp_all
  then show ?thesis
    by (simp add: start_def header_def)
qed

section \<open>The run\<close>

text \<open>
  Fetching the users touches neither the spreadsheets nor the clock nor the license
  service, and only adds to the log.
\<close>

lemma getInactiveUsers_loop_frame:
  assumes "getInactiveUsers_loop P q users tok w = Some r"
  shows "spreadsheets (snd r) = spreadsheets w \<and> clock_reads (snd r) = clock_reads w \<and>
         get_calls (snd r) = get_calls w \<and> prefix (logs w) (logs (snd r))"
proof -
  let ?I = "\<lambda>(x :: (((platform \<times> string) \<times> user list) \<times> string option) \<times> world) (r :: user list \<times> world).
     spreadsheets (snd r) = spreadsheets (snd x) \<and> clock_reads (snd r) = clock_reads (snd x) \<and>
     get_calls (snd r) = get_calls (snd x) \<and> prefix (logs (snd x)) (logs (snd r))"
  have "?I ((((P, q), users), tok), w) r"
  proof (rule getInactiveUsers_loop.raw_induct [where Pa = ?I, OF _ assms])
    fix loop P q users tok w r
    assume IH: "\<And>P q users tok w r. loop P q users tok w = Some r \<Longrightarrow> ?I ((((P, q), users), tok), w) r"
    assume body: "(case Users_list P (list_calls w) (list_request q tok) of
        Inl e \<Rightarrow> Some (users, Logger_log (''Error listing users: '' @ message e) (count_list_call w))
      | Inr response \<Rightarrow>
          (let users' = (case response_users response of None \<Rightarrow> users | Some page \<Rightarrow> users @ page);
               tok' = response_nextPageToken response
           in if truthy tok' then loop P q users' tok' (count_list_call w)
              else Some (users', count_list_call w))) = Some r"
    show "?I ((((P, q), users), tok), w) r"
    proof (cases "Users_list P (list_calls w) (list_request q tok)")
      case (Inl e)
      with body have "r = (users, Logger_log (''Error listing users: '' @ message e) (count_list_call w))"
        by simp
      then show ?thesis
        by (simp add: Logger_log_def count_list_call_def)
    next
      case (Inr response)
      show ?thesis
      proof (cases "truthy (response_nextPageToken response)")
        case True
        with body Inr have "loop P q (case response_users response of None \<Rightarrow> users | Some page \<Rightarrow> users @ page)
            (response_nextPageToken response) (count_list_call w) = Some r"
          by (simp add: Let_def)
        from IH [OF this] show ?thesis
          by (simp add: count_list_call_def)
      next
        case False
        with body Inr have "r = (case response_users response of None \<Rightarrow> users | Some page \<Rightarrow> users @ page, count_list_call w)"
          by (simp add: Let_def)
        then show ?thesis
          by (simp add: count_list_call_def)
      qed
    qed
  qed
  then show ?thesis by simp
qed

lemma getInactiveUsers_frame:
  assumes "getInactiveUsers P cutoffDate w = Some (r, w')"
  shows "spreadsheets w' = spreadsheets w \<and> clock_reads w' = clock_reads w \<and>
         get_calls w' = get_calls w \<and> prefix (logs w) (logs w')"
proof (cases cutoffDate)
  case None
  with assms show ?thesis
    by (simp add: getInactiveUsers_def toISOString_def)
next
  case (Some t)
  with assms obtain users where "getInactiveUsers_loop P (cutoff_query t) [] None w = Some (users, w')"
    by (auto simp: getInactiveUsers_valid)
  from getInactiveUsers_loop_frame [OF this] show ?thesis
    by simp
qed

text \<open>
  The run, read with the names of the lines that it logs, and what is left of it once
  the cutoff date is valid, the users are fetched and the filter has run.
\<close>

lemma audit_lines:
  "auditInactiveEnterpriseUsers P cfg w =
     (let (inactiveDate, w1) = getCutoffDate P (INACTIVITY_DAYS cfg) w
      in case inactiveDate of
        None \<Rightarrow> Some (Inl (RangeError ''Invalid time value''), w1)
      | Some t \<Rightarrow>
     (case getInactiveUsers P inactiveDate (Logger_log (auditing_line t) w1) of
        None \<Rightarrow> None
      | Some (Inl e, w3) \<Rightarrow> Some (Inl e, w3)
      | Some (Inr inactiveUsers, w3) \<Rightarrow>
     (let (targetUsers, w5) = filter_hasLicense P cfg inactiveUsers
                                (Logger_log (found_inactive_line (length inactiveUsers)) w3);
          w6 = Logger_log (found_target_line (length targetUsers)) w5
      in if targetUsers \<noteq> [] then Some (exportToSheet P targetUsers w6)
         else Some (Inr (), Logger_log ''No matching users found.'' w6))))"
  by (simp add: auditInactiveEnterpriseUsers_def toISOString_def auditing_line_def
      found_inactive_line_def found_target_line_def Let_def
      split: prod.split option.split sum.split)

lemma audit_steps:
  assumes cutoff: "fst (getCutoffDate P (INACTIVITY_DAYS cfg) w) = Some t"
    and fetch: "getInactiveUsers P (Some t)
                  (Logger_log (auditing_line t) (snd (getCutoffDate P (INACTIVITY_DAYS cfg) w))) =
                Some (Inr inactiveUsers, w3)"
    and license: "filter_hasLicense P cfg inactiveUsers
                    (Logger_log (found_inactive_line (length inactiveUsers)) w3) = (targetUsers, w5)"
  shows "auditInactiveEnterpriseUsers P cfg w =
           (if targetUsers \<noteq> []
            then Some (exportToSheet P targetUsers (Logger_log (found_target_line (length targetUsers)) w5))
            else Some (Inr (), Logger_log ''No matching users found.''
                                 (Logger_log (found_target_line (length targetUsers)) w5)))"
proof -
  obtain d w1 where c: "getCutoffDate P (INACTIVITY_DAYS cfg) w = (d, w1)"
    by (cases "getCutoffDate P (INACTIVITY_DAYS cfg) w")
  with cutoff have d: "d = Some t" by simp
  from fetch c have f: "getInactiveUsers P (Some t) (Logger_log (auditing_line t) w1) =
      Some (Inr inactiveUsers, w3)"
    by simp
  show ?thesis
    unfolding audit_lines c d by (simp only: f license Let_def prod.case option.case sum.case)
qed

text \<open>
  Once the users are fetched the run comes to an end, with the number of the users it
  has fetched in its log: the filter and the export always return or throw.
\<close>

lemma exportToSheet_logs:
  "prefix (logs w) (logs (snd (exportToSheet P users w)))"
  by (auto simp: exportToSheet_def Let_def on_sheet_def Logger_log_def split: option.splits)

lemma audit_after_fetch:
  assumes cutoff: "fst (getCutoffDate P (INACTIVITY_DAYS cfg) w) = Some t"
    and fetch: "getInactiveUsers P (Some t)
                  (Logger_log (auditing_line t) (snd (getCutoffDate P (INACTIVITY_DAYS cfg) w))) =
                Some (Inr inactiveUsers, w3)"
  shows "\<exists>r w'. auditInactiveEnterpriseUsers P cfg w = Some (r, w') \<and>
                prefix (logs w3 @ [found_inactive_line (length inactiveUsers)]) (logs w')"
proof -
  let ?w4 = "Logger_log (found_inactive_line (length inactiveUsers)) w3"
  obtain targetUsers w5 where license: "filter_hasLicense P cfg inactiveUsers ?w4 = (targetUsers, w5)"
    by (cases "filter_hasLicense P cfg inactiveUsers ?w4")
  then have "w5 = snd (filter_hasLicense P cfg inactiveUsers ?w4)"
    by simp
  then have w5: "logs w5 = logs w3 @ [found_inactive_line (length inactiveUsers)]"
    by (simp add: filter_hasLicense_world Logger_log_def)
  let ?w6 = "Logger_log (found_target_line (length targetUsers)) w5"
  have w6: "prefix (logs w5) (logs ?w6)"
    by (simp add: Logger_log_def)
  show ?thesis
  proof (cases "targetUsers = []")
    case True
    with audit_steps [OF cutoff fetch license]
    have "auditInactiveEnterpriseUsers P cfg w =
          Some (Inr (), Logger_log ''No matching users found.'' ?w6)"
      by simp
    moreover have "prefix (logs w5) (logs (Logger_log ''No matching users found.'' ?w6))"
      by (simp add: Logger_log_def)
    ultimately show ?thesis
      unfolding w5 by blast
  next
    case False
    with audit_steps [OF cutoff fetch license]
    have "auditInactiveEnterpriseUsers P cfg w =
          Some (fst (exportToSheet P targetUsers ?w6), snd (exportToSheet P targetUsers ?w6))"
      by simp
    moreover have "prefix (logs w5) (logs (snd (exportToSheet P targetUsers ?w6)))"
      using w6 exportToSheet_logs [of ?w6 P targetUsers] by (rule prefix_order.trans)
    ultimately show ?thesis
      unfolding w5 by blast
  qed
qed

text \<open>
  \<^bold>\<open>C2\<close>. When the directory answers the requests of the loop with the pages \<open>pages\<close>,
  each carrying a token for the next request, and the request after them throws \<open>e\<close>,
  \<^verbatim>\<open>getInactiveUsers\<close> returns (it does not throw) exactly the users of \<open>pages\<close>, has
  logged the message of \<open>e\<close>, and has made one request per page and one that failed:
  the failed request is not made again. The run that has called it goes on with these
  users: it logs their number and comes to its end.
\<close>

theorem getInactiveUsers_page_fails:
  assumes "pages_served P (cutoff_query t) (list_calls w) None pages"
    and "Users_list P (list_calls w + length pages)
           (list_request (cutoff_query t) (token_after None pages)) = Inl e"
  shows "getInactiveUsers P (Some t) w =
           Some (Inr (concat (map page_items pages)),
                 Logger_log (''Error listing users: '' @ message e)
                   (w\<lparr>list_calls := list_calls w + length pages + 1\<rparr>))
         \<and> (\<forall>cfg w0. fst (getCutoffDate P (INACTIVITY_DAYS cfg) w0) = Some t \<and>
                Logger_log (auditing_line t) (snd (getCutoffDate P (INACTIVITY_DAYS cfg) w0)) = w \<longrightarrow>
              (\<exists>r w'. auditInactiveEnterpriseUsers P cfg w0 = Some (r, w') \<and>
                 prefix (logs w @ [''Error listing users: '' @ message e,
                                   found_inactive_line (length (concat (map page_items pages)))])
                        (logs w')))"
proof (intro conjI allI impI)
  let ?w = "w\<lparr>list_calls := list_calls w + length pages\<rparr>"
  have "getInactiveUsers_loop P (cutoff_query t) [] None w =
        getInactiveUsers_loop P (cutoff_query t) ([] @ concat (map page_items pages))
          (token_after None pages) ?w"
    using assms(1) by (rule loop_pages)
  also have "\<dots> = Some ([] @ concat (map page_items pages),
        Logger_log (''Error listing users: '' @ message e) (count_list_call ?w))"
    using assms(2) by (intro loop_throws) simp
  finally show fetched: "getInactiveUsers P (Some t) w =
           Some (Inr (concat (map page_items pages)),
                 Logger_log (''Error listing users: '' @ message e)
                   (w\<lparr>list_calls := list_calls w + length pages + 1\<rparr>))"
    by (simp add: getInactiveUsers_valid count_list_call_def)
  fix cfg :: config and w0 :: world
  assume run: "fst (getCutoffDate P (INACTIVITY_DAYS cfg) w0) = Some t \<and>
                Logger_log (auditing_line t) (snd (getCutoffDate P (INACTIVITY_DAYS cfg) w0)) = w"
  then have "getInactiveUsers P (Some t)
      (Logger_log (auditing_line t) (snd (getCutoffDate P (INACTIVITY_DAYS cfg) w0))) =
           Some (Inr (concat (map page_items pages)),
                 Logger_log (''Error listing users: '' @ message e)
                   (w\<lparr>list_calls := list_calls w + length pages + 1\<rparr>))"
    using fetched by simp
  from audit_after_fetch [OF conjunct1 [OF run] this]
  show "\<exists>r w'. auditInactiveEnterpriseUsers P cfg w0 = Some (r, w') \<and>
                 prefix (logs w @ [''Error listing users: '' @ message e,
                                   found_inactive_line (length (concat (map page_items pages)))])
                        (logs w')"
    by (simp add: Logger_log_def)
qed

text \<open>
  \<^bold>\<open>C7\<close>. When a run has a valid cutoff date, has fetched its users, and the filter keeps
  none of them, it returns without an error, having made no call on the spreadsheet
  service: the spreadsheets are those from before the run. After the count of the
  inactive users it has logged a count of 0 and \<^verbatim>\<open>No matching users found.\<close>
\<close>

theorem no_match_no_export:
  assumes cutoff: "fst (getCutoffDate P (INACTIVITY_DAYS cfg) w) = Some t"
    and fetch: "getInactiveUsers P (Some t)
                  (Logger_log (auditing_line t) (snd (getCutoffDate P (INACTIVITY_DAYS cfg) w))) =
                Some (Inr inactiveUsers, w3)"
    and none: "fst (filter_hasLicense P cfg inactiveUsers
                      (Logger_log (found_inactive_line (length inactiveUsers)) w3)) = []"
  shows "auditInactiveEnterpriseUsers P cfg w =
           Some (Inr (),
                 w3\<lparr>get_calls := get_calls w3 + length inactiveUsers,
                    logs := logs w3 @ [found_inactive_line (length inactiveUsers), found_target_line 0,
                                       ''No matching users found.'']\<rparr>)
         \<and> spreadsheets w3 = spreadsheets w"
proof
  let ?w4 = "Logger_log (found_inactive_line (length inactiveUsers)) w3"
  have "filter_hasLicense P cfg inactiveUsers ?w4 = ([], ?w4\<lparr>get_calls := get_calls ?w4 + length inactiveUsers\<rparr>)"
    using none filter_hasLicense_world [of P cfg inactiveUsers ?w4] by (simp add: prod_eq_iff)
  from audit_steps [OF cutoff fetch this]
  show "auditInactiveEnterpriseUsers P cfg w =
           Some (Inr (),
                 w3\<lparr>get_calls := get_calls w3 + length inactiveUsers,
                    logs := logs w3 @ [found_inactive_line (length inactiveUsers), found_target_line 0,
                                       ''No matching users found.'']\<rparr>)"
    by (simp add: Logger_log_def)
  from getInactiveUsers_frame [OF fetch]
  show "spreadsheets w3 = spreadsheets w"
    by (simp add: Logger_log_def getCutoffDate_eq)
qed

text \<open>
  \<^bold>\<open>C9\<close>, as the code has it. When the run has users to export and a call on the
  spreadsheet service is set to throw, nothing catches the error: the error of such a
  call leaves \<^verbatim>\<open>exportToSheet\<close> and the run, which returns nothing to its caller. The
  two counts, of the inactive users and of those with the license, were logged before the
  export and are the last two lines of the log; the users themselves are not logged.
\<close>

theorem export_failure_ends_run:
  assumes cutoff: "fst (getCutoffDate P (INACTIVITY_DAYS cfg) w) = Some t"
    and fetch: "getInactiveUsers P (Some t)
                  (Logger_log (auditing_line t) (snd (getCutoffDate P (INACTIVITY_DAYS cfg) w))) =
                Some (Inr inactiveUsers, w3)"
    and license: "filter_hasLicense P cfg inactiveUsers
                    (Logger_log (found_inactive_line (length inactiveUsers)) w3) = (targetUsers, w5)"
    and some: "targetUsers \<noteq> []"
    and fault: "sheet_fault P call = Some e"
  shows "\<exists>e' call' w7. sheet_fault P call' = Some e'
           \<and> auditInactiveEnterpriseUsers P cfg w = Some (Inl e', w7)
           \<and> logs w7 = logs w3 @ [found_inactive_line (length inactiveUsers),
                                   found_target_line (length targetUsers)]"
proof -
  let ?w6 = "Logger_log (found_target_line (length targetUsers)) w5"
  from exportToSheet_throws [OF some fault, of ?w6]
  obtain e' call' w7 where thrown: "sheet_fault P call' = Some e'"
    and export: "exportToSheet P targetUsers ?w6 = (Inl e', w7)" and same: "logs w7 = logs ?w6"
    by blast
  from audit_steps [OF cutoff fetch license] some export
  have run: "auditInactiveEnterpriseUsers P cfg w = Some (Inl e', w7)"
    by simp
  have "w5 = snd (filter_hasLicense P cfg inactiveUsers
                    (Logger_log (found_inactive_line (length inactiveUsers)) w3))"
    using license by simp
  then have "logs w5 = logs w3 @ [found_inactive_line (length inactiveUsers)]"
    by (simp add: filter_hasLicense_world Logger_log_def)
  with same have "logs w7 = logs w3 @ [found_inactive_line (length inactiveUsers),
                                       found_target_line (length targetUsers)]"
    by (simp add: Logger_log_def)
  with thrown run show ?thesis by blast
qed

text \<open>
  Runs on the sample platform with one user in the directory: the cutoff is the epoch,
  365 days before the clock's reading.
\<close>

lemma sample_cutoff_365:
  "getCutoffDate (sample_platform script license fault) (INACTIVITY_DAYS CONFIG) start =
     (Some 0, start\<lparr>clock_reads := 1\<rparr>)"
  by (simp add: sample_cutoff CONFIG_def TimeClip_def msPerDay_def)

lemma sample_fetch_one:
  assumes "list_calls w = 0"
  shows "getInactiveUsers (sample_platform one_user license fault) (Some t) w =
         Some (Inr [sample_user ''A''], count_list_call w)"
proof -
  have "getInactiveUsers_loop (sample_platform one_user license fault) (cutoff_query t) [] None w =
        Some ([] @ page_items (Response (Some [sample_user ''A'']) None), count_list_call w)"
    by (rule loop_last_page) (simp_all add: assms sample_Users_list one_user_def truthy_def)
  then show ?thesis
    by (simp add: getInactiveUsers_valid page_items_def)
qed

lemma sample_fetched:
  "getInactiveUsers (sample_platform one_user license fault) (Some 0)
     (Logger_log (auditing_line 0)
        (snd (getCutoffDate (sample_platform one_user license fault) (INACTIVITY_DAYS CONFIG) start))) =
   Some (Inr [sample_user ''A''],
         \<lparr>clock_reads = 1, list_calls = 1, get_calls = 0, logs = [auditing_line 0], spreadsheets = []\<rparr>)"
proof -
  have "list_calls (Logger_log (auditing_line 0) (start\<lparr>clock_reads := 1\<rparr>)) = 0"
    by (simp add: Logger_log_def start_def)
  from sample_fetch_one [OF this, of license fault 0] show ?thesis
    unfolding sample_cutoff_365 snd_conv
    by (simp add: Logger_log_def start_def count_list_call_def)
qed

lemma sample_filter_one:
  "filter_hasLicense (sample_platform script license fault) CONFIG [sample_user ''A''] w =
     (case license ''A@x.com'' of Inl e \<Rightarrow> [] | Inr l \<Rightarrow> [sample_user ''A''],
      w\<lparr>get_calls := Suc (get_calls w)\<rparr>)"
  by (simp add: hasLicense_def sample_platform_def sample_user_def split: sum.split)

lemma sample_run_unlicensed:
  assumes "license ''A@x.com'' = Inl e"
  shows "auditInactiveEnterpriseUsers (sample_platform one_user license no_fault) CONFIG start =
     Some (Inr (),
           \<lparr>clock_reads = 1, list_calls = 1, get_calls = 1,
            logs = [auditing_line 0, found_inactive_line 1, found_target_line 0,
                    ''No matching users found.''],
            spreadsheets = []\<rparr>)"
proof -
  let ?P = "sample_platform one_user license no_fault"
  let ?w3 = "\<lparr>clock_reads = 1, list_calls = 1, get_calls = 0, logs = [auditing_line 0], spreadsheets = []\<rparr>"
  have cutoff: "fst (getCutoffDate ?P (INACTIVITY_DAYS CONFIG) start) = Some 0"
    by (simp add: sample_cutoff_365)
  have license: "filter_hasLicense ?P CONFIG [sample_user ''A'']
      (Logger_log (found_inactive_line (length [sample_user ''A''])) ?w3) =
      ([], (Logger_log (found_inactive_line (length [sample_user ''A''])) ?w3)\<lparr>get_calls := 1\<rparr>)"
    by (simp add: sample_filter_one assms Logger_log_def del: filter_hasLicense.simps)
  from audit_steps [OF cutoff sample_fetched license] show ?thesis
    by (simp add: Logger_log_def)
qed

text \<open>
  A run in which the call to the license service times out is the run in which it answers
  404, line by line of the log and count by count: nothing records the failed call as
  inconclusive.
\<close>

theorem inconclusive_not_recorded_counterexample:
  "auditInactiveEnterpriseUsers (sample_platform one_user timeout no_fault) CONFIG start =
   auditInactiveEnterpriseUsers (sample_platform one_user not_found no_fault) CONFIG start
   \<and> auditInactiveEnterpriseUsers (sample_platform one_user timeout no_fault) CONFIG start =
     Some (Inr (),
           \<lparr>clock_reads = 1, list_calls = 1, get_calls = 1,
            logs = [auditing_line 0, found_inactive_line 1, found_target_line 0,
                    ''No matching users found.''],
            spreadsheets = []\<rparr>)"
  by (simp add: sample_run_unlicensed [of timeout "TransportError ''Timeout''"]
      sample_run_unlicensed [of not_found "ApiError 404 ''Not Found''"] timeout_def not_found_def)

theorem no_match_no_export_witness:
  "fst (getCutoffDate (sample_platform one_user not_found no_fault) (INACTIVITY_DAYS CONFIG) start) = Some 0
   \<and> getInactiveUsers (sample_platform one_user not_found no_fault) (Some 0)
       (Logger_log (auditing_line 0)
          (snd (getCutoffDate (sample_platform one_user not_found no_fault) (INACTIVITY_DAYS CONFIG) start))) =
     Some (Inr [sample_user ''A''],
           \<lparr>clock_reads = 1, list_calls = 1, get_calls = 0, logs = [auditing_line 0], spreadsheets = []\<rparr>)
   \<and> fst (filter_hasLicense (sample_platform one_user not_found no_fault) CONFIG [sample_user ''A'']
           (Logger_log (found_inactive_line (length [sample_user ''A'']))
              \<lparr>clock_reads = 1, list_calls = 1, get_calls = 0, logs = [auditing_line 0],
               spreadsheets = []\<rparr>)) = []
   \<and> auditInactiveEnterpriseUsers (sample_platform one_user not_found no_fault) CONFIG start =
     Some (Inr (),
           \<lparr>clock_reads = 1, list_calls = 1, get_calls = 1,
            logs = [auditing_line 0, found_inactive_line 1, found_target_line 0,
                    ''No matching users found.''],
            spreadsheets = []\<rparr>)
   \<and> spreadsheets start = []"
proof -
  let ?P = "sample_platform one_user not_found no_fault"
  let ?w3 = "\<lparr>clock_reads = 1, list_calls = 1, get_calls = 0, logs = [auditing_line 0], spreadsheets = []\<rparr>"
  have cutoff: "fst (getCutoffDate ?P (INACTIVITY_DAYS CONFIG) start) = Some 0"
    by (simp add: sample_cutoff_365)
  have fetch: "getInactiveUsers ?P (Some 0)
       (Logger_log (auditing_line 0) (snd (getCutoffDate ?P (INACTIVITY_DAYS CONFIG) start))) =
     Some (Inr [sample_user ''A''], ?w3)"
    by (rule sample_fetched)
  have none: "fst (filter_hasLicense ?P CONFIG [sample_user ''A'']
           (Logger_log (found_inactive_line (length [sample_user ''A''])) ?w3)) = []"
    by (simp add: sample_filter_one not_found_def del: filter_hasLicense.simps)
  from no_match_no_export [OF cutoff fetch none]
  have "auditInactiveEnterpriseUsers ?P CONFIG start =
     Some (Inr (),
           \<lparr>clock_reads = 1, list_calls = 1, get_calls = 1,
            logs = [auditing_line 0, found_inactive_line 1, found_target_line 0,
                    ''No matching users found.''],
            spreadsheets = []\<rparr>)"
    and "spreadsheets start = []"
    by simp_all
  with cutoff fetch none show ?thesis
    by simp
qed

lemma sample_export_fails:
  "exportToSheet (sample_platform script license create_fails) users w = (Inl (ApiError 403 ''Quota exceeded''), w)"
  by (simp add: exportToSheet_def sample_platform_def create_fails_def)

text \<open>
  A run in which \<^verbatim>\<open>SpreadsheetApp.create\<close> throws ends with that error, uncaught.
\<close>

theorem export_failure_counterexample:
  "auditInactiveEnterpriseUsers (sample_platform one_user assigned create_fails) CONFIG start =
     Some (Inl (ApiError 403 ''Quota exceeded''),
           \<lparr>clock_reads = 1, list_calls = 1, get_calls = 1,
            logs = [auditing_line 0, found_inactive_line 1, found_target_line 1],
            spreadsheets = []\<rparr>)"
proof -
  let ?P = "sample_platform one_user assigned create_fails"
  let ?w3 = "\<lparr>clock_reads = 1, list_calls = 1, get_calls = 0, logs = [auditing_line 0], spreadsheets = []\<rparr>"
  have cutoff: "fst (getCutoffDate ?P (INACTIVITY_DAYS CONFIG) start) = Some 0"
    by (simp add: sample_cutoff_365)
  have license: "filter_hasLicense ?P CONFIG [sample_user ''A'']
      (Logger_log (found_inactive_line (length [sample_user ''A''])) ?w3) =
      ([sample_user ''A''], (Logger_log (found_inactive_line (length [sample_user ''A''])) ?w3)\<lparr>get_calls := 1\<rparr>)"
    by (simp add: sample_filter_one assigned_def Logger_log_def del: filter_hasLicense.simps)
  from audit_steps [OF cutoff sample_fetched license] show ?thesis
    by (simp add: sample_export_fails Logger_log_def)
qed

theorem export_failure_ends_run_witness:
  "fst (getCutoffDate (sample_platform one_user assigned setValues_fails) (INACTIVITY_DAYS CONFIG) start) = Some 0
   \<and> getInactiveUsers (sample_platform one_user assigned setValues_fails) (Some 0)
       (Logger_log (auditing_line 0)
          (snd (getCutoffDate (sample_platform one_user assigned setValues_fails) (INACTIVITY_DAYS CONFIG) start))) =
     Some (Inr [sample_user ''A''],
           \<lparr>clock_reads = 1, list_calls = 1, get_calls = 0, logs = [auditing_line 0], spreadsheets = []\<rparr>)
   \<and> filter_hasLicense (sample_platform one_user assigned setValues_fails) CONFIG [sample_user ''A'']
       (Logger_log (found_inactive_line (length [sample_user ''A'']))
          \<lparr>clock_reads = 1, list_calls = 1, get_calls = 0, logs = [auditing_line 0], spreadsheets = []\<rparr>) =
     ([sample_user ''A''],
      \<lparr>clock_reads = 1, list_calls = 1, get_calls = 1,
       logs = [auditing_line 0, found_inactive_line 1], spreadsheets = []\<rparr>)
   \<and> [sample_user ''A''] \<noteq> []
   \<and> sheet_fault (sample_platform one_user assigned setValues_fails) SetValues =
       Some (ApiError 500 ''Service error'')
   \<and> (\<exists>w7. auditInactiveEnterpriseUsers (sample_platform one_user assigned setValues_fails) CONFIG start =
              Some (Inl (ApiError 500 ''Service error''), w7)
            \<and> logs w7 = [auditing_line 0, found_inactive_line 1, found_target_line 1])"
proof -
  let ?P = "sample_platform one_user assigned setValues_fails"
  let ?w3 = "\<lparr>clock_reads = 1, list_calls = 1, get_calls = 0, logs = [auditing_line 0], spreadsheets = []\<rparr>"
  let ?w5 = "\<lparr>clock_reads = 1, list_calls = 1, get_calls = 1,
       logs = [auditing_line 0, found_inactive_line 1], spreadsheets = []\<rparr>"
  have cutoff: "fst (getCutoffDate ?P (INACTIVITY_DAYS CONFIG) start) = Some 0"
    by (simp add: sample_cutoff_365)
  have fetch: "getInactiveUsers ?P (Some 0)
       (Logger_log (auditing_line 0) (snd (getCutoffDate ?P (INACTIVITY_DAYS CONFIG) start))) =
     Some (Inr [sample_user ''A''], ?w3)"
    by (rule sample_fetched)
  have license: "filter_hasLicense ?P CONFIG [sample_user ''A'']
      (Logger_log (found_inactive_line (length [sample_user ''A''])) ?w3) = ([sample_user ''A''], ?w5)"
    by (simp add: sample_filter_one assigned_def Logger_log_def del: filter_hasLicense.simps)
  have some: "[sample_user ''A''] \<noteq> []"
    by simp
  have fault: "sheet_fault ?P SetValues = Some (ApiError 500 ''Service error'')"
    by (simp add: sample_platform_def setValues_fails_def)
  have only: "\<And>call e. sheet_fault ?P call = Some e \<Longrightarrow> e = ApiError 500 ''Service error''"
    by (simp add: sample_platform_def setValues_fails_def split: if_splits)
  from export_failure_ends_run [OF cutoff fetch license some fault]
  obtain e' call' w7 where "sheet_fault ?P call' = Some e'"
    and "auditInactiveEnterpriseUsers ?P CONFIG start = Some (Inl e', w7)"
    and "logs w7 = logs ?w3 @ [found_inactive_line (length [sample_user ''A'']),
                              found_target_line (length [sample_user ''A''])]"
    by blast
  with only have "\<exists>w7. auditInactiveEnterpriseUsers ?P CONFIG start =
              Some (Inl (ApiError 500 ''Service error''), w7)
            \<and> logs w7 = [auditing_line 0, found_inactive_line 1, found_target_line 1]"
    by auto
  with cutoff fetch license some fault show ?thesis
    by (intro conjI)
qed

theorem getInactiveUsers_page_fails_witness:
  "pages_served (sample_platform [Inr page1, Inl (ApiError 503 ''Service unavailable'')] not_found no_fault)
     (cutoff_query 0)
     (list_calls \<lparr>clock_reads = 1, list_calls = 0, get_calls = 0, logs = [auditing_line 0],
                  spreadsheets = []\<rparr>)
     None [page1]
   \<and> Users_list (sample_platform [Inr page1, Inl (ApiError 503 ''Service unavailable'')] not_found no_fault)
       (list_calls \<lparr>clock_reads = 1, list_calls = 0, get_calls = 0, logs = [auditing_line 0],
                    spreadsheets = []\<rparr> + length [page1])
       (list_request (cutoff_query 0) (token_after None [page1])) = Inl (ApiError 503 ''Service unavailable'')
   \<and> fst (getCutoffDate
            (sample_platform [Inr page1, Inl (ApiError 503 ''Service unavailable'')] not_found no_fault)
            (INACTIVITY_DAYS CONFIG) start) = Some 0
   \<and> Logger_log (auditing_line 0)
       (snd (getCutoffDate
               (sample_platform [Inr page1, Inl (ApiError 503 ''Service unavailable'')] not_found no_fault)
               (INACTIVITY_DAYS CONFIG) start)) =
     \<lparr>clock_reads = 1, list_calls = 0, get_calls = 0, logs = [auditing_line 0], spreadsheets = []\<rparr>
   \<and> getInactiveUsers
       (sample_platform [Inr page1, Inl (ApiError 503 ''Service unavailable'')] not_found no_fault) (Some 0)
       \<lparr>clock_reads = 1, list_calls = 0, get_calls = 0, logs = [auditing_line 0], spreadsheets = []\<rparr> =
     Some (Inr (replicate 500 (sample_user ''a'')),
           \<lparr>clock_reads = 1, list_calls = 2, get_calls = 0,
            logs = [auditing_line 0, ''Error listing users: Service unavailable''],
            spreadsheets = []\<rparr>)
   \<and> (\<exists>r w'. auditInactiveEnterpriseUsers
                 (sample_platform [Inr page1, Inl (ApiError 503 ''Service unavailable'')] not_found no_fault)
                 CONFIG start = Some (r, w') \<and>
               prefix [auditing_line 0, ''Error listing users: Service unavailable'', found_inactive_line 500]
                      (logs w'))"
proof -
  let ?P = "sample_platform [Inr page1, Inl (ApiError 503 ''Service unavailable'')] not_found no_fault"
  let ?w = "\<lparr>clock_reads = 1, list_calls = 0, get_calls = 0, logs = [auditing_line 0], spreadsheets = []\<rparr>"
  have served: "pages_served ?P (cutoff_query 0) (list_calls ?w) None [page1]"
    by (simp add: sample_Users_list page1_def truthy_def)
  have fails: "Users_list ?P (list_calls ?w + length [page1])
       (list_request (cutoff_query 0) (token_after None [page1])) = Inl (ApiError 503 ''Service unavailable'')"
    by (simp add: sample_Users_list)
  have cutoff: "fst (getCutoffDate ?P (INACTIVITY_DAYS CONFIG) start) = Some 0"
    by (simp add: sample_cutoff_365)
  have world: "Logger_log (auditing_line 0) (snd (getCutoffDate ?P (INACTIVITY_DAYS CONFIG) start)) = ?w"
    unfolding sample_cutoff_365 snd_conv by (simp add: Logger_log_def start_def)
  note inst = getInactiveUsers_page_fails [OF served fails]
  from inst have fetched: "getInactiveUsers ?P (Some 0) ?w =
     Some (Inr (replicate 500 (sample_user ''a'')),
           \<lparr>clock_reads = 1, list_calls = 2, get_calls = 0,
            logs = [auditing_line 0, ''Error listing users: Service unavailable''],
            spreadsheets = []\<rparr>)"
    by (simp add: page_items_def page1_def Logger_log_def)
  from inst cutoff world
  have "\<exists>r w'. auditInactiveEnterpriseUsers ?P CONFIG start = Some (r, w') \<and>
          prefix (logs ?w @ [''Error listing users: '' @ message (ApiError 503 ''Service unavailable''),
                             found_inactive_line (length (concat (map page_items [page1])))])
                 (logs w')"
    by blast
  then have run: "\<exists>r w'. auditInactiveEnterpriseUsers ?P CONFIG start = Some (r, w') \<and>
          prefix [auditing_line 0, ''Error listing users: Service unavailable'', found_inactive_line 500]
                 (logs w')"
    by (simp add: page_items_def page1_def)
  from served fails cutoff world fetched run show ?thesis
    by (intro conjI)
qed

end
